theory Spec2Isabelle
  imports Complex_Main "HOL-Library.Multiset"
begin

section \<open>Python values, errors and ranges\<close>

text \<open>
  The script \<^verbatim>\<open>mnist_classification/main.py\<close> is embedded function by function.
  Python integers are \<^typ>\<open>int\<close> where their sign matters (the stride, the batch size
  handed to the loader) and \<^typ>\<open>nat\<close> where the source can only produce a count
  (\<^verbatim>\<open>len\<close>, \<^verbatim>\<open>enumerate\<close>, the counters). Floating-point tensors and floats are
  \<^typ>\<open>real\<close>: the arithmetic of the script is read as exact arithmetic. A raised
  exception is the \<open>Inl\<close> branch of a sum.
\<close>

datatype error = ValueError | ZeroDivisionError | UnboundLocalError | RuntimeError | IndexError

text \<open>
  \<^verbatim>\<open>range(start, stop, step)\<close>: a zero step raises \<^verbatim>\<open>ValueError\<close>, a positive step
  counts up while the index is below \<open>stop\<close>, a negative one counts down while it is
  above.
\<close>

function range_up :: "int \<Rightarrow> int \<Rightarrow> int \<Rightarrow> int list" where
  "range_up i stop step =
     (if 0 < step \<and> i < stop then i # range_up (i + step) stop step else [])"
  by pat_completeness auto
termination
  by (relation "measure (\<lambda>(i, stop, step). nat (stop - i))") auto

function range_down :: "int \<Rightarrow> int \<Rightarrow> int \<Rightarrow> int list" where
  "range_down i stop step =
     (if step < 0 \<and> stop < i then i # range_down (i + step) stop step else [])"
  by pat_completeness auto
termination
  by (relation "measure (\<lambda>(i, stop, step). nat (i - stop))") auto

declare range_up.simps [simp del] range_down.simps [simp del]

definition py_range :: "int \<Rightarrow> int \<Rightarrow> int \<Rightarrow> error + int list" where
  "py_range start stop step =
     (if step = 0 then Inl ValueError
      else if 0 < step then Inr (range_up start stop step)
      else Inr (range_down start stop step))"

section \<open>Data loader\<close>

text \<open>
  A sample is an image with its class label. The image type is left open (\<open>'x\<close>): the
  script never looks inside an image except to hand it to the model or to the logger.
\<close>

type_synonym 'x sample = "'x \<times> nat"

text \<open>
  \<^verbatim>\<open>torch.utils.data.Subset(full_dataset, indices)\<close>: element \<open>j\<close> of the subset is
  element \<open>indices[j]\<close> of the full dataset. The indices that the script passes come
  from \<^verbatim>\<open>range(0, len(full_dataset), step)\<close>, so they are never negative and never
  reach the length.
\<close>

definition Subset :: "'a list \<Rightarrow> int list \<Rightarrow> 'a list" where
  "Subset full_dataset indices = map (\<lambda>i. full_dataset ! nat i) indices"

text \<open>
  \<^verbatim>\<open>torch.utils.data.DataLoader\<close>, as far as the script uses it: the dataset, the batch
  size and the shuffle flag. The constructor builds the sampler first, and the shuffling
  sampler refuses an empty dataset; then it builds the batch sampler, which refuses a
  batch size that is not positive. Both raise \<^verbatim>\<open>ValueError\<close>.
\<close>

record 'x dataloader =
  dataset :: "'x sample list"
  batch_size :: nat
  shuffle :: bool

definition DataLoader :: "'x sample list \<Rightarrow> int \<Rightarrow> bool \<Rightarrow> error + 'x dataloader" where
  "DataLoader ds bs sh =
     (if sh \<and> ds = [] then Inl ValueError
      else if bs \<le> 0 then Inl ValueError
      else Inr \<lparr>dataset = ds, batch_size = nat bs, shuffle = sh\<rparr>)"

text \<open>
  \<^verbatim>\<open>get_dataloader(is_train, batch_size, step=5)\<close>. The dataset provider
  \<^verbatim>\<open>torchvision.datasets.MNIST\<close> is the parameter \<open>MNIST\<close>, giving the full training
  split for \<open>True\<close> and the full validation split for \<open>False\<close> (the download is taken
  to have succeeded). \<open>sub_dataset\<close> is the first half of the function, up to the
  subset; the optional argument \<open>step\<close> is \<open>None\<close> when the caller leaves it out.
\<close>

definition sub_dataset ::
  "(bool \<Rightarrow> 'x sample list) \<Rightarrow> bool \<Rightarrow> int \<Rightarrow> error + 'x sample list" where
  "sub_dataset MNIST is_train step =
     (let full_dataset = MNIST is_train
      in case py_range 0 (int (length full_dataset)) step of
           Inl e \<Rightarrow> Inl e
         | Inr indices \<Rightarrow> Inr (Subset full_dataset indices))"

definition get_dataloader ::
  "(bool \<Rightarrow> 'x sample list) \<Rightarrow> bool \<Rightarrow> int \<Rightarrow> int option \<Rightarrow> error + 'x dataloader" where
  "get_dataloader MNIST is_train bs step_arg =
     (let step = (case step_arg of None \<Rightarrow> 5 | Some s \<Rightarrow> s)
      in case sub_dataset MNIST is_train step of
           Inl e \<Rightarrow> Inl e
         | Inr sub \<Rightarrow> DataLoader sub bs is_train)"

text \<open>
  Batches. The loader cuts the sequence of sample indices into consecutive runs of
  \<open>batch_size\<close> indices, the last run being shorter when the sizes do not divide
  (\<^verbatim>\<open>drop_last\<close> is left at its default, false). A batch is the pair of the images
  and the labels of its samples (\<^verbatim>\<open>images, labels\<close> in the source).
\<close>

function chunks :: "nat \<Rightarrow> 'a list \<Rightarrow> 'a list list" where
  "chunks n xs = (if n = 0 \<or> xs = [] then [] else take n xs # chunks n (drop n xs))"
  by pat_completeness auto
termination
  by (relation "measure (\<lambda>(n, xs). length xs)") auto

declare chunks.simps [simp del]

type_synonym 'x batch = "'x list \<times> nat list"

definition collate :: "'x sample list \<Rightarrow> 'x batch" where
  "collate b = (map fst b, map snd b)"

section \<open>Layers and their shapes\<close>

text \<open>
  The layers of \<^verbatim>\<open>torch.nn\<close> that the script uses. \<^verbatim>\<open>nn.Dropout(p)\<close> refuses a
  probability outside \<open>[0, 1]\<close>.
\<close>

datatype layer = Flatten | Linear nat nat | BatchNorm1d nat | ReLU | Dropout real

definition nn_Dropout :: "real \<Rightarrow> error + layer" where
  "nn_Dropout p = (if p < 0 \<or> 1 < p then Inl ValueError else Inr (Dropout p))"

text \<open>
  What each layer does to the shape of a batch of tensors (the first dimension is the
  batch); the flag says whether the network is in training mode.
  \<^item> \<open>Flatten\<close> merges all dimensions after the first; it needs two dimensions at least.
  \<^item> \<open>Linear m n\<close> replaces a last dimension \<open>m\<close> by \<open>n\<close>.
  \<^item> \<open>BatchNorm1d n\<close> wants a two- or three-dimensional input with \<open>n\<close> channels in the
  second dimension. In training mode it computes the statistics of the batch, and
  refuses (\<^verbatim>\<open>ValueError\<close>) a batch that gives it a single value per channel: for a
  two-dimensional input, a batch of one example.
  \<^item> \<open>ReLU\<close> and \<open>Dropout\<close> keep the shape.
\<close>

fun values_per_channel :: "nat list \<Rightarrow> nat" where
  "values_per_channel (b # c # ds) = b * prod_list ds"
| "values_per_channel _ = 0"

fun layer_shape :: "bool \<Rightarrow> layer \<Rightarrow> nat list \<Rightarrow> error + nat list" where
  "layer_shape tr Flatten (b # d # ds) = Inr [b, prod_list (d # ds)]"
| "layer_shape tr Flatten _ = Inl IndexError"
| "layer_shape tr (Linear m n) [] = Inl RuntimeError"
| "layer_shape tr (Linear m n) ds =
     (if last ds = m then Inr (butlast ds @ [n]) else Inl RuntimeError)"
| "layer_shape tr (BatchNorm1d n) ds =
     (if length ds \<noteq> 2 \<and> length ds \<noteq> 3 then Inl ValueError
      else if tr \<and> values_per_channel ds = 1 then Inl ValueError
      else if ds ! 1 = n then Inr ds
      else Inl RuntimeError)"
| "layer_shape tr ReLU ds = Inr ds"
| "layer_shape tr (Dropout p) ds = Inr ds"

fun sequential_shape :: "bool \<Rightarrow> layer list \<Rightarrow> nat list \<Rightarrow> error + nat list" where
  "sequential_shape tr [] ds = Inr ds"
| "sequential_shape tr (l # ls) ds =
     (case layer_shape tr l ds of Inl e \<Rightarrow> Inl e | Inr ds' \<Rightarrow> sequential_shape tr ls ds')"

text \<open>
  The refusal that the mode decides: walking through the layers in training mode, a
  layer refuses an input that it would have taken in evaluation mode. Among the layers
  above this is batch normalization over a single value per channel.
\<close>

fun batch_norm_refuses :: "layer list \<Rightarrow> nat list \<Rightarrow> bool" where
  "batch_norm_refuses [] ds = False"
| "batch_norm_refuses (l # ls) ds =
     (case layer_shape True l ds of
        Inr ds' \<Rightarrow> batch_norm_refuses ls ds'
      | Inl e \<Rightarrow> (case layer_shape False l ds of Inr ds' \<Rightarrow> True | Inl e' \<Rightarrow> False))"

text \<open>
  An image of the dataset, after \<^verbatim>\<open>T.ToTensor()\<close>, is a tensor of one channel of 28 by
  28 pixels; a batch of \<open>b\<close> images has the shape \<open>b # image_shape\<close>.
\<close>

definition image_shape :: "nat list" where
  "image_shape = [1, 28, 28]"

text \<open>
  A model instance: its layers, its parameters (the weights and biases that the
  optimizer updates), its buffers (the running statistics of batch normalization) and
  the mode flag that \<^verbatim>\<open>model.train()\<close> and \<^verbatim>\<open>model.eval()\<close> set.
\<close>

record model =
  layers :: "layer list"
  params :: "real list"
  buffers :: "real list"
  training :: bool

section \<open>The libraries around the script\<close>

text \<open>
  The script is glue over PyTorch, Python's \<^verbatim>\<open>random\<close> and the experiment logger.
  Their numerics are parameters of the embedding, collected in one record:
  \<^item> \<open>getrandbits53 k\<close>: the 53 random bits behind the \<open>k\<close>-th call of \<^verbatim>\<open>random.random()\<close>;
  \<^item> \<open>randperm k n\<close>: the \<open>k\<close>-th permutation of \<open>0, \<dots>, n - 1\<close> that the shuffling sampler draws;
  \<^item> \<open>init_params\<close>, \<open>init_buffers\<close>: the initial parameters and buffers of a network;
  \<^item> \<open>forward m images\<close>: the logits of a batch that the network accepts, one row for
  each image; \<open>running_stats m images\<close>: the buffers after a forward pass in training
  mode;
  \<^item> \<open>softmax\<close>: the scores of a row of logits;
  \<^item> \<open>CrossEntropyLoss\<close>: the loss of a batch of logits against its labels;
  \<^item> \<open>adam_init\<close>, \<open>adam_update\<close>: the optimizer; \<open>adam_update lr st m images labels\<close> gives
  the parameters and the optimizer state after \<^verbatim>\<open>zero_grad\<close>, \<^verbatim>\<open>backward\<close> and \<^verbatim>\<open>step\<close>
  on one batch.
\<close>

record 'x externals =
  getrandbits53 :: "nat \<Rightarrow> nat"
  randperm :: "nat \<Rightarrow> nat \<Rightarrow> nat list"
  init_params :: "layer list \<Rightarrow> real list"
  init_buffers :: "layer list \<Rightarrow> real list"
  forward :: "model \<Rightarrow> 'x list \<Rightarrow> real list list"
  softmax :: "real list \<Rightarrow> real list"
  running_stats :: "model \<Rightarrow> 'x list \<Rightarrow> real list"
  CrossEntropyLoss :: "real list list \<Rightarrow> nat list \<Rightarrow> real"
  adam_init :: "real list \<Rightarrow> real list"
  adam_update :: "real \<Rightarrow> real list \<Rightarrow> model \<Rightarrow> 'x list \<Rightarrow> nat list \<Rightarrow> real list \<times> real list"

text \<open>The shuffling sampler is sound when each of its draws is a permutation.\<close>

definition sampler_ok :: "'x externals \<Rightarrow> bool" where
  "sampler_ok E \<longleftrightarrow> (\<forall>k n. mset (randperm E k n) = mset [0..<n])"

text \<open>
  The numerics respect the shapes when a batch that the layers take to the shape
  \<open>[b, c]\<close> gets \<open>b\<close> rows of \<open>c\<close> logits, and the scores of a row are as many as its
  logits.
\<close>

definition shapes_ok :: "'x externals \<Rightarrow> bool" where
  "shapes_ok E \<longleftrightarrow>
     (\<forall>m images c.
        sequential_shape (training m) (layers m) (length images # image_shape)
          = Inr [length images, c]
        \<longrightarrow> length (forward E m images) = length images
            \<and> (\<forall>row\<in>set (forward E m images). length row = c))
     \<and> (\<forall>row. length (softmax E row) = length row)"

section \<open>Model builder\<close>

text \<open>
  \<^verbatim>\<open>get_model(dropout)\<close>: the network with freshly initialized parameters and buffers. A
  new module is in training mode.
\<close>

definition get_model :: "'x externals \<Rightarrow> real \<Rightarrow> error + model" where
  "get_model E dropout_p =
     (case nn_Dropout dropout_p of
        Inl e \<Rightarrow> Inl e
      | Inr dropout_layer \<Rightarrow>
          (let ls = [Flatten, Linear (28 * 28) 256, BatchNorm1d 256, ReLU, dropout_layer,
                     Linear 256 10]
           in Inr \<lparr>layers = ls, params = init_params E ls, buffers = init_buffers E ls,
                    training = True\<rparr>))"


section \<open>Experiment logger\<close>

text \<open>
  A metrics record is a Python dictionary; it is kept as an association list in
  insertion order. Its values are floats, integers or a predictions table.
\<close>

record 'x table =
  columns :: "string list"
  rows :: "('x \<times> nat \<times> nat \<times> real list) list"

datatype 'x mval = FloatV real | IntV int | TableV "'x table"

type_synonym 'x metrics = "(string \<times> 'x mval) list"

record config =
  epochs :: int
  cfg_batch_size :: int
  lr :: real
  dropout :: real

text \<open>
  The four operations of the logger that the script calls. The embedding records the
  calls in order; \<open>Log d commit\<close> is \<^verbatim>\<open>wandb.log(d, commit=commit)\<close>, where a call that
  leaves \<^verbatim>\<open>commit\<close> out commits.
\<close>

datatype 'x wandb_call =
    Init string config
  | Log "'x metrics" bool
  | Summary string real
  | Finish

text \<open>
  The state outside the local variables: the logger's calls so far, the switch of
  gradient computation, the forward passes made so far (each with the mode flag of the
  model and the gradient switch at the time of the call), and the positions of the two
  random number generators.
\<close>

record 'x world =
  wandb_calls :: "'x wandb_call list"
  grad_enabled :: bool
  forward_calls :: "(bool \<times> bool) list"
  py_rng :: nat
  torch_rng :: nat

definition wandb_init :: "string \<Rightarrow> config \<Rightarrow> 'x world \<Rightarrow> 'x world" where
  "wandb_init project cfg w = w\<lparr>wandb_calls := wandb_calls w @ [Init project cfg]\<rparr>"

definition wandb_log :: "'x metrics \<Rightarrow> bool \<Rightarrow> 'x world \<Rightarrow> 'x world" where
  "wandb_log d commit w = w\<lparr>wandb_calls := wandb_calls w @ [Log d commit]\<rparr>"

definition wandb_summary_set :: "string \<Rightarrow> real \<Rightarrow> 'x world \<Rightarrow> 'x world" where
  "wandb_summary_set k v w = w\<lparr>wandb_calls := wandb_calls w @ [Summary k v]\<rparr>"

definition wandb_finish :: "'x world \<Rightarrow> 'x world" where
  "wandb_finish w = w\<lparr>wandb_calls := wandb_calls w @ [Finish]\<rparr>"

text \<open>\<^verbatim>\<open>{**a, **b}\<close>: the entries of \<open>a\<close>, each key of \<open>b\<close> overwriting or extending them.\<close>

fun dict_set :: "string \<Rightarrow> 'v \<Rightarrow> (string \<times> 'v) list \<Rightarrow> (string \<times> 'v) list" where
  "dict_set k v [] = [(k, v)]"
| "dict_set k v ((k', v') # d) = (if k' = k then (k, v) # d else (k', v') # dict_set k v d)"

definition dict_merge :: "(string \<times> 'v) list \<Rightarrow> (string \<times> 'v) list \<Rightarrow> (string \<times> 'v) list" where
  "dict_merge a b = foldl (\<lambda>d (k, v). dict_set k v d) a b"

section \<open>Iterating a loader, calling the model\<close>

text \<open>
  One pass over a loader: the sampler gives the indices \<open>0, \<dots>, n - 1\<close>, permuted when
  the loader shuffles (which advances the generator), the indices are cut into batches
  and each batch of samples is collated.
\<close>

definition iter_loader ::
  "'x externals \<Rightarrow> 'x dataloader \<Rightarrow> 'x world \<Rightarrow> 'x batch list \<times> 'x world" where
  "iter_loader E dl w =
     (let n = length (dataset dl);
          (indices, w') =
             (if shuffle dl then (randperm E (torch_rng w) n, w\<lparr>torch_rng := torch_rng w + 1\<rparr>)
              else ([0..<n], w))
      in (map (\<lambda>ib. collate (map (\<lambda>i. dataset dl ! i) ib)) (chunks (batch_size dl) indices), w'))"

text \<open>
  \<^verbatim>\<open>model(images)\<close>: in training mode, the refusal of batch normalization; otherwise
  the logits, the model afterwards (batch normalization updates its running statistics
  in training mode only) and the forward pass recorded. A network whose layers do not
  fit the images in either mode is outside the embedding.
\<close>

definition call_model ::
  "'x externals \<Rightarrow> model \<Rightarrow> 'x list \<Rightarrow> 'x world
     \<Rightarrow> error + real list list \<times> model \<times> 'x world" where
  "call_model E m images w =
     (if training m \<and> batch_norm_refuses (layers m) (length images # image_shape)
      then Inl ValueError
      else Inr (forward E m images,
                (if training m then m\<lparr>buffers := running_stats E m images\<rparr> else m),
                w\<lparr>forward_calls := forward_calls w @ [(training m, grad_enabled w)]\<rparr>))"

section \<open>Validator\<close>

text \<open>
  \<^verbatim>\<open>torch.max(outputs.data, 1)\<close> gives, for each row of logits, the index of its
  greatest entry, the first one when several entries are greatest.
\<close>

fun argmax_from :: "nat \<Rightarrow> nat \<Rightarrow> real \<Rightarrow> real list \<Rightarrow> nat" where
  "argmax_from i best_i best [] = best_i"
| "argmax_from i best_i best (v # vs) =
     (if best < v then argmax_from (Suc i) i v vs else argmax_from (Suc i) best_i best vs)"

definition argmax :: "real list \<Rightarrow> nat" where
  "argmax row = (case row of [] \<Rightarrow> 0 | v # vs \<Rightarrow> argmax_from 1 0 v vs)"

text \<open>\<^verbatim>\<open>(predicted == labels).sum().item()\<close>\<close>

definition n_correct :: "nat list \<Rightarrow> nat list \<Rightarrow> nat" where
  "n_correct predicted labels = length (filter (\<lambda>(p, l). p = l) (zip predicted labels))"

text \<open>
  \<^verbatim>\<open>log_image_table\<close>: one row for each sample of the batch (the image, the predicted
  label, the true label and the scores), logged under \<^verbatim>\<open>predictions_table\<close> with
  \<^verbatim>\<open>commit=False\<close>. The image cell holds the sample's image; its rendering by
  \<^verbatim>\<open>wandb.Image\<close> is not modelled. The table has thirteen columns, and the logger
  refuses a row of another width; that refusal is not modelled, so the embedding follows
  the script only for a network with ten scores for each image, as the network of
  \<open>get_model\<close> has. The statements about a trial are made under \<open>shapes_ok\<close>, which
  gives the rows their ten scores.
\<close>

definition score_columns :: "string list" where
  "score_columns = map (\<lambda>i. ''score_'' @ [char_of (48 + i)]) [0..<10::nat]"

definition log_image_table ::
  "'x list \<Rightarrow> nat list \<Rightarrow> nat list \<Rightarrow> real list list \<Rightarrow> 'x world \<Rightarrow> 'x world" where
  "log_image_table images predicted labels probs w =
     (let table = \<lparr>columns = [''image'', ''pred'', ''target''] @ score_columns,
                   rows = zip images (zip predicted (zip labels probs))\<rparr>
      in wandb_log [(''predictions_table'', TableV table)] False w)"

text \<open>The variables that the loop of \<^verbatim>\<open>validate_model\<close> carries.\<close>

record 'x vstate =
  v_val_loss :: real
  v_correct :: nat
  v_model :: model
  v_world :: "'x world"

text \<open>The body of the loop for the batch with index \<open>i\<close> (lines 60 to 72).\<close>

definition validate_step ::
  "'x externals \<Rightarrow> (real list list \<Rightarrow> nat list \<Rightarrow> real) \<Rightarrow> bool \<Rightarrow> nat \<Rightarrow> nat \<Rightarrow> 'x batch
     \<Rightarrow> 'x vstate \<Rightarrow> error + 'x vstate" where
  "validate_step E loss_func log_images batch_idx i b s =
     (let (images, labels) = b
      in case call_model E (v_model s) images (v_world s) of
           Inl e \<Rightarrow> Inl e
         | Inr (outputs, m, w) \<Rightarrow>
             (let predicted = map argmax outputs
              in Inr \<lparr>v_val_loss = v_val_loss s + loss_func outputs labels * real (length labels),
                      v_correct = v_correct s + n_correct predicted labels,
                      v_model = m,
                      v_world = (if i = batch_idx \<and> log_images
                                 then log_image_table images predicted labels
                                        (map (softmax E) outputs) w
                                 else w)\<rparr>))"

text \<open>
  The loop gives the exception that stopped it, if any, and the variables as they
  stand then.
\<close>

fun validate_loop ::
  "'x externals \<Rightarrow> (real list list \<Rightarrow> nat list \<Rightarrow> real) \<Rightarrow> bool \<Rightarrow> nat \<Rightarrow> nat \<Rightarrow> 'x batch list
     \<Rightarrow> 'x vstate \<Rightarrow> error option \<times> 'x vstate" where
  "validate_loop E loss_func log_images batch_idx i [] s = (None, s)"
| "validate_loop E loss_func log_images batch_idx i (b # bs) s =
     (case validate_step E loss_func log_images batch_idx i b s of
        Inl e \<Rightarrow> (Some e, s)
      | Inr s' \<Rightarrow> validate_loop E loss_func log_images batch_idx (Suc i) bs s')"

text \<open>
  \<^verbatim>\<open>validate_model(model, valid_dl, loss_func, log_images, batch_idx)\<close>. The model is
  put in evaluation mode, the loop runs with gradient computation switched off
  (\<^verbatim>\<open>torch.inference_mode()\<close> restores the switch on exit, also when the loop raises),
  and the two sums are divided by the size of the dataset; the division raises when the
  dataset is empty. The model and the world after the call are returned next to the
  result, since an exception does not undo them. The docstring of the function speaks
  of logging a table; the table is logged only when \<open>log_images\<close> is set and the batch
  with the index \<open>batch_idx\<close> exists.
\<close>

definition validate_model ::
  "'x externals \<Rightarrow> model \<Rightarrow> 'x dataloader \<Rightarrow> (real list list \<Rightarrow> nat list \<Rightarrow> real) \<Rightarrow> bool \<Rightarrow> nat
     \<Rightarrow> 'x world \<Rightarrow> (error + real \<times> real) \<times> model \<times> 'x world" where
  "validate_model E m valid_dl loss_func log_images batch_idx w =
     (let m_eval = m\<lparr>training := False\<rparr>;
          previous = grad_enabled w;
          (bs, w0) = iter_loader E valid_dl (w\<lparr>grad_enabled := False\<rparr>);
          (raised, s) = validate_loop E loss_func log_images batch_idx 0 bs
                          \<lparr>v_val_loss = 0, v_correct = 0, v_model = m_eval, v_world = w0\<rparr>;
          w1 = (v_world s)\<lparr>grad_enabled := previous\<rparr>;
          n = length (dataset valid_dl)
      in ((case raised of
             Some e \<Rightarrow> Inl e
           | None \<Rightarrow>
               if n = 0 then Inl ZeroDivisionError
               else Inr (v_val_loss s / real n, real (v_correct s) / real n)),
          v_model s, w1))"

section \<open>Training loop\<close>

text \<open>
  The local variables of \<^verbatim>\<open>main\<close> that the loops read and write, and the world.
  \<open>metrics\<close> is \<open>None\<close> as long as the variable is unbound.
\<close>

record 'x locals =
  model :: model
  optimizer :: "real list"
  example_ct :: nat
  step_ct :: nat
  metrics :: "'x metrics option"
  world :: "'x world"

text \<open>
  One step of the inner loop (lines 137 to 158), \<open>step\<close> being the index of the batch.
  The forward pass of line 140 can raise; the exception ends the run.
\<close>

definition train_step ::
  "'x externals \<Rightarrow> (real list list \<Rightarrow> nat list \<Rightarrow> real) \<Rightarrow> config \<Rightarrow> int \<Rightarrow> nat \<Rightarrow> nat \<Rightarrow> 'x batch
     \<Rightarrow> 'x locals \<Rightarrow> error + 'x locals" where
  "train_step E loss_func cfg n_steps_per_epoch epoch step b s =
     (let (images, labels) = b
      in case call_model E (model s) images (world s) of
           Inl e \<Rightarrow> Inl e
         | Inr (outputs, m, w) \<Rightarrow>
             (let train_loss = loss_func outputs labels;
                  (p, opt) = adam_update E (lr cfg) (optimizer s) (model s) images labels;
                  example_ct' = example_ct s + length images;
                  metrics' = [(''train/train_loss'', FloatV train_loss),
                              (''train/epoch'', IntV (int epoch)),
                              (''train/example_ct'', IntV (int example_ct')),
                              (''train/step_ct'', IntV (int (step_ct s)))]
              in Inr (s\<lparr>model := m\<lparr>params := p\<rparr>,
                        optimizer := opt,
                        example_ct := example_ct',
                        step_ct := step_ct s + 1,
                        metrics := Some metrics',
                        world := (if int step + 1 < n_steps_per_epoch
                                  then wandb_log metrics' True w else w)\<rparr>)))"

fun train_loop ::
  "'x externals \<Rightarrow> (real list list \<Rightarrow> nat list \<Rightarrow> real) \<Rightarrow> config \<Rightarrow> int \<Rightarrow> nat \<Rightarrow> nat
     \<Rightarrow> 'x batch list \<Rightarrow> 'x locals \<Rightarrow> error + 'x locals" where
  "train_loop E loss_func cfg n_steps_per_epoch epoch step [] s = Inr s"
| "train_loop E loss_func cfg n_steps_per_epoch epoch step (b # bs) s =
     (case train_step E loss_func cfg n_steps_per_epoch epoch step b s of
        Inl e \<Rightarrow> Inl e
      | Inr s' \<Rightarrow> train_loop E loss_func cfg n_steps_per_epoch epoch (Suc step) bs s')"

text \<open>
  One epoch (lines 136 to 169): the model goes to training mode, the training batches
  are processed, the model is validated (with the predictions table in the last epoch)
  and the last training record is logged together with the validation metrics. Reading
  \<open>metrics\<close> raises when no training step has ever bound it.
\<close>

definition run_epoch ::
  "'x externals \<Rightarrow> (real list list \<Rightarrow> nat list \<Rightarrow> real) \<Rightarrow> config \<Rightarrow> 'x dataloader \<Rightarrow> 'x dataloader
     \<Rightarrow> int \<Rightarrow> nat \<Rightarrow> 'x locals \<Rightarrow> error + 'x locals" where
  "run_epoch E loss_func cfg train_dl valid_dl n_steps_per_epoch epoch s =
     (let s1 = s\<lparr>model := (model s)\<lparr>training := True\<rparr>\<rparr>;
          (bs, w) = iter_loader E train_dl (world s1)
      in case train_loop E loss_func cfg n_steps_per_epoch epoch 0 bs (s1\<lparr>world := w\<rparr>) of
           Inl e \<Rightarrow> Inl e
         | Inr s2 \<Rightarrow>
             (let (r, m, w') = validate_model E (model s2) valid_dl loss_func
                                 (int epoch = epochs cfg - 1) 0 (world s2)
              in case r of
                   Inl e \<Rightarrow> Inl e
                 | Inr (val_loss, accuracy) \<Rightarrow>
                     (let val_metrics = [(''val/val_loss'', FloatV val_loss),
                                         (''val/val_accuracy'', FloatV accuracy)]
                      in case metrics s2 of
                           None \<Rightarrow> Inl UnboundLocalError
                         | Some last_metrics \<Rightarrow>
                             Inr (s2\<lparr>model := m,
                                     world := wandb_log (dict_merge last_metrics val_metrics)
                                                True w'\<rparr>))))"

fun epochs_loop ::
  "'x externals \<Rightarrow> (real list list \<Rightarrow> nat list \<Rightarrow> real) \<Rightarrow> config \<Rightarrow> 'x dataloader \<Rightarrow> 'x dataloader
     \<Rightarrow> int \<Rightarrow> nat list \<Rightarrow> 'x locals \<Rightarrow> error + 'x locals" where
  "epochs_loop E loss_func cfg train_dl valid_dl n_steps_per_epoch [] s = Inr s"
| "epochs_loop E loss_func cfg train_dl valid_dl n_steps_per_epoch (epoch # es) s =
     (case run_epoch E loss_func cfg train_dl valid_dl n_steps_per_epoch epoch s of
        Inl e \<Rightarrow> Inl e
      | Inr s' \<Rightarrow> epochs_loop E loss_func cfg train_dl valid_dl n_steps_per_epoch es s')"

section \<open>A trial and the main function\<close>

text \<open>
  \<^verbatim>\<open>random.random()\<close> is 53 random bits scaled by \<open>2\<^sup>-\<^sup>5\<^sup>3\<close>, and
  \<^verbatim>\<open>random.uniform(a, b)\<close> is \<^verbatim>\<open>a + (b - a) * random()\<close>.
\<close>

definition random_random :: "'x externals \<Rightarrow> 'x world \<Rightarrow> real \<times> 'x world" where
  "random_random E w =
     (real (getrandbits53 E (py_rng w) mod 2 ^ 53) / 2 ^ 53, w\<lparr>py_rng := py_rng w + 1\<rparr>)"

definition random_uniform :: "'x externals \<Rightarrow> real \<Rightarrow> real \<Rightarrow> 'x world \<Rightarrow> real \<times> 'x world" where
  "random_uniform E a b w = (let (r, w') = random_random E w in (a + (b - a) * r, w'))"

text \<open>Lines 98 to 103: the configuration of a trial.\<close>

definition make_config :: "'x externals \<Rightarrow> 'x world \<Rightarrow> config \<times> 'x world" where
  "make_config E w =
     (let (d, w') = random_uniform E (1 / 100) (80 / 100) w
      in (\<lparr>epochs = 5, cfg_batch_size = 128, lr = 1 / 1000, dropout = d\<rparr>, w'))"

text \<open>
  Lines 115 to 117: the two loaders and the number of steps of an epoch. The division
  is by a positive number, since a batch size that is not positive has made
  \<open>get_dataloader\<close> raise before.
\<close>

definition make_loaders ::
  "(bool \<Rightarrow> 'x sample list) \<Rightarrow> config \<Rightarrow> error + 'x dataloader \<times> 'x dataloader \<times> int" where
  "make_loaders MNIST cfg =
     (case get_dataloader MNIST True (cfg_batch_size cfg) None of
        Inl e \<Rightarrow> Inl e
      | Inr train_dl \<Rightarrow>
          (case get_dataloader MNIST False (2 * cfg_batch_size cfg) None of
             Inl e \<Rightarrow> Inl e
           | Inr valid_dl \<Rightarrow>
               Inr (train_dl, valid_dl,
                    \<lceil>real (length (dataset train_dl)) / real_of_int (cfg_batch_size cfg)\<rceil>)))"

text \<open>
  One trial (the body of the loop of \<^verbatim>\<open>main\<close>). The variable \<open>metrics\<close> is local to
  \<^verbatim>\<open>main\<close>, not to the trial, so a trial starts with whatever the previous one left
  in it. The messages to the console are not modelled.
\<close>

definition trial ::
  "'x externals \<Rightarrow> (bool \<Rightarrow> 'x sample list) \<Rightarrow> 'x metrics option \<Rightarrow> 'x world \<Rightarrow> error + 'x locals" where
  "trial E MNIST metrics0 w0 =
     (let (cfg, w1) = make_config E w0;
          w2 = wandb_init ''mnist-classification'' cfg w1
      in case make_loaders MNIST cfg of
           Inl e \<Rightarrow> Inl e
         | Inr (train_dl, valid_dl, n_steps_per_epoch) \<Rightarrow>
             (case get_model E (dropout cfg) of
                Inl e \<Rightarrow> Inl e
              | Inr m \<Rightarrow>
                  (let loss_func = CrossEntropyLoss E;
                       s = \<lparr>model = m, optimizer = adam_init E (params m),
                            example_ct = 0, step_ct = 0, metrics = metrics0, world = w2\<rparr>
                   in case epochs_loop E loss_func cfg train_dl valid_dl n_steps_per_epoch
                             [0..<nat (epochs cfg)] s of
                        Inl e \<Rightarrow> Inl e
                      | Inr s' \<Rightarrow>
                          Inr (s'\<lparr>world := wandb_finish
                                   (wandb_summary_set ''test_accuracy'' (8 / 10) (world s'))\<rparr>))))"

fun trials ::
  "'x externals \<Rightarrow> (bool \<Rightarrow> 'x sample list) \<Rightarrow> nat \<Rightarrow> 'x metrics option \<Rightarrow> 'x world
     \<Rightarrow> error + 'x metrics option \<times> 'x world" where
  "trials E MNIST 0 metrics0 w = Inr (metrics0, w)"
| "trials E MNIST (Suc k) metrics0 w =
     (case trial E MNIST metrics0 w of
        Inl e \<Rightarrow> Inl e
      | Inr s \<Rightarrow> trials E MNIST k (metrics s) (world s))"

definition initial_world :: "'x world" where
  "initial_world =
     \<lparr>wandb_calls = [], grad_enabled = True, forward_calls = [], py_rng = 0, torch_rng = 0\<rparr>"

definition main ::
  "'x externals \<Rightarrow> (bool \<Rightarrow> 'x sample list) \<Rightarrow> error + 'x metrics option \<times> 'x world" where
  "main E MNIST = trials E MNIST 5 None initial_world"

section \<open>Notions used in the statements\<close>

text \<open>
  The table that \<open>log_image_table\<close> builds from a batch, the predicted labels and
  the scores; and the call that logs the table of the batch \<open>b\<close> under the model \<open>m\<close>.
\<close>

definition predictions_table :: "'x batch \<Rightarrow> nat list \<Rightarrow> real list list \<Rightarrow> 'x table" where
  "predictions_table b predicted probs =
     \<lparr>columns = [''image'', ''pred'', ''target''] @ score_columns,
      rows = zip (fst b) (zip predicted (zip (snd b) probs))\<rparr>"

definition table_call :: "'x externals \<Rightarrow> model \<Rightarrow> 'x batch \<Rightarrow> 'x wandb_call" where
  "table_call E m b =
     Log [(''predictions_table'',
           TableV (predictions_table b (map argmax (forward E m (fst b)))
                     (map (softmax E) (forward E m (fst b)))))] False"

text \<open>
  The record that a training step builds, for a given epoch and step counter, and the
  record of validation metrics.
\<close>

definition train_record :: "'x metrics \<Rightarrow> nat \<Rightarrow> nat \<Rightarrow> bool" where
  "train_record d epoch sc \<longleftrightarrow>
     (\<exists>loss ct. d = [(''train/train_loss'', FloatV loss),
                     (''train/epoch'', IntV (int epoch)),
                     (''train/example_ct'', IntV ct),
                     (''train/step_ct'', IntV (int sc))])"

definition val_record :: "'x metrics \<Rightarrow> bool" where
  "val_record vm \<longleftrightarrow>
     (\<exists>loss acc. vm = [(''val/val_loss'', FloatV loss), (''val/val_accuracy'', FloatV acc)])"

text \<open>
  The calls to the logger that one epoch of \<open>n\<close> steps makes, when the step counter
  stands at \<open>sc\<close> at its start: a committed call for the record of each step but the
  last; then the calls \<open>tbl\<close> of the validation (the predictions table in the final
  epoch, nothing otherwise); and one committed call that holds the record of the last
  step followed by the validation metrics.
\<close>

definition epoch_trace ::
  "nat \<Rightarrow> nat \<Rightarrow> nat \<Rightarrow> 'x wandb_call list \<Rightarrow> 'x wandb_call list \<Rightarrow> bool" where
  "epoch_trace n epoch sc tbl tr \<longleftrightarrow>
     (\<exists>ds vm.
        length ds = n \<and> (\<forall>k<n. train_record (ds ! k) epoch (sc + k)) \<and> val_record vm
        \<and> tr = map (\<lambda>d. Log d True) (butlast ds) @ tbl @ [Log (last ds @ vm) True])"

text \<open>A call that logs a record with the key \<open>k\<close>.\<close>

definition logs_key :: "string \<Rightarrow> 'x wandb_call \<Rightarrow> bool" where
  "logs_key k c = (case c of Log d commit \<Rightarrow> k \<in> set (map fst d) | _ \<Rightarrow> False)"

text \<open>The first batch of a loader that does not shuffle.\<close>

definition first_batch :: "'x dataloader \<Rightarrow> 'x batch" where
  "first_batch dl = collate (take (batch_size dl) (dataset dl))"

text \<open>A call that sets a summary value; a call that logs the step counter \<open>c\<close>.\<close>

definition is_summary :: "'x wandb_call \<Rightarrow> bool" where
  "is_summary c = (case c of Summary k v \<Rightarrow> True | _ \<Rightarrow> False)"

definition logs_step :: "nat \<Rightarrow> 'x wandb_call \<Rightarrow> bool" where
  "logs_step c call =
     (case call of Log d commit \<Rightarrow> (''train/step_ct'', IntV (int c)) \<in> set d | _ \<Rightarrow> False)"

text \<open>
  The size of the training dataset of a trial (every fifth example of the training
  split), and what the statements about a trial ask of it: it is not empty, and cut
  into batches of 128 it leaves no batch of a single example, which batch normalization
  would refuse in training mode. The training split of MNIST has 60000 examples, so
  the size is 12000 and the last batch has 96 examples.
\<close>

definition train_size :: "(bool \<Rightarrow> 'x sample list) \<Rightarrow> nat" where
  "train_size MNIST = nat \<lceil>real (length (MNIST True)) / 5\<rceil>"

definition trainable :: "(bool \<Rightarrow> 'x sample list) \<Rightarrow> bool" where
  "trainable MNIST \<longleftrightarrow> MNIST True \<noteq> [] \<and> train_size MNIST mod 128 \<noteq> 1"

section \<open>A small concrete instance\<close>

text \<open>
  Images are natural numbers here. The network gives an image \<open>x\<close> as many logits as
  its layers say, all equal to \<open>x\<close> (and the logits \<open>[x, 1]\<close> when the layers do not end
  in rows of logits), the scores of a row are its entries divided by their sum, every
  batch has loss 2, and the shuffling sampler reverses the order.
\<close>

definition toy_forward :: "model \<Rightarrow> nat list \<Rightarrow> real list list" where
  "toy_forward m images =
     (case sequential_shape (training m) (layers m) (length images # image_shape) of
        Inr [b, c] \<Rightarrow> map (\<lambda>x. replicate c (real x)) images
      | _ \<Rightarrow> map (\<lambda>x. [real x, 1]) images)"

definition toy_externals :: "nat externals" where
  "toy_externals =
     \<lparr>getrandbits53 = (\<lambda>k. 3 * 2 ^ 51 + k),
      randperm = (\<lambda>k n. rev [0..<n]),
      init_params = (\<lambda>ls. [0]),
      init_buffers = (\<lambda>ls. [0]),
      forward = toy_forward,
      softmax = (\<lambda>row. map (\<lambda>v. v / sum_list row) row),
      running_stats = (\<lambda>m images. buffers m),
      CrossEntropyLoss = (\<lambda>outputs labels. 2),
      adam_init = (\<lambda>p. []),
      adam_update = (\<lambda>lr st m images labels. (map (\<lambda>v. v + 1) (params m), st))\<rparr>"

definition toy_model :: model where
  "toy_model = \<lparr>layers = [], params = [0], buffers = [0], training = True\<rparr>"

text \<open>The network that \<open>get_model\<close> builds for the dropout probability one half.\<close>

definition toy_network :: model where
  "toy_network =
     \<lparr>layers = [Flatten, Linear 784 256, BatchNorm1d 256, ReLU, Dropout (1 / 2), Linear 256 10],
      params = [0], buffers = [0], training = True\<rparr>"

definition toy_loader :: "nat dataloader" where
  "toy_loader =
     \<lparr>dataset = [(0, 1), (5, 0), (3, 1), (0, 0), (7, 0)], batch_size = 2, shuffle = False\<rparr>"

definition toy_shuffling_loader :: "nat dataloader" where
  "toy_shuffling_loader = toy_loader\<lparr>shuffle := True\<rparr>"

text \<open>
  A full dataset of a thousand training and three validation examples: two hundred
  training examples after subsampling, so two steps in an epoch, of 128 and 72 examples.
\<close>

definition toy_MNIST :: "bool \<Rightarrow> nat sample list" where
  "toy_MNIST is_train =
     (if is_train then map (\<lambda>i. (i mod 3, i mod 2)) [0..<1000]
      else [(4, 0), (0, 1), (1, 1)])"

section \<open>Properties of the data loader\<close>

text \<open>
  A range that counts up from \<open>i\<close> in strides of \<open>k\<close> holds the numbers
  \<open>i, i + k, i + 2k, \<dots>\<close>, one for each stride that starts below \<open>stop\<close>.
\<close>

lemma range_up_eq:
  "0 < k \<Longrightarrow> range_up i stop k =
     map (\<lambda>j. i + int j * k) [0..<nat \<lceil>real_of_int (stop - i) / real_of_int k\<rceil>]"
proof (induction i stop k rule: range_up.induct)
  case (1 i stop step)
  let ?c = "\<lambda>i. \<lceil>real_of_int (stop - i) / real_of_int step\<rceil>"
  show ?case
  proof (cases "i < stop")
    case True
    have "real_of_int (stop - (i + step)) / real_of_int step
            = real_of_int (stop - i) / real_of_int step - 1"
      using 1(2) by (simp add: field_simps)
    then have c: "?c i = ?c (i + step) + 1" by simp
    have "0 < real_of_int (stop - i) / real_of_int step" using True 1(2) by simp
    then have pos: "0 < ?c i" by (simp only: zero_less_ceiling)
    then have n: "nat (?c i) = Suc (nat (?c (i + step)))" using c by linarith
    have "range_up i stop step = i # range_up (i + step) stop step"
      using True 1(2) by (simp add: range_up.simps[of i])
    also have "\<dots> = i # map (\<lambda>j. (i + step) + int j * step) [0..<nat (?c (i + step))]"
      using 1(1) True 1(2) by simp
    also have "\<dots> = map (\<lambda>j. i + int j * step) [0..<Suc (nat (?c (i + step)))]"
      by (simp add: upt_conv_Cons map_Suc_upt[symmetric] algebra_simps del: upt_Suc)
    finally show ?thesis using n by simp
  next
    case False
    then have "real_of_int (stop - i) / real_of_int step \<le> 0"
      using 1(2) by (simp add: divide_le_0_iff)
    then have "?c i \<le> 0" by (simp add: ceiling_le_zero)
    then show ?thesis using False by (simp add: range_up.simps[of i])
  qed
qed

lemma sub_dataset_eq:
  assumes "0 < k"
  shows "sub_dataset MNIST is_train k =
           Inr (map (\<lambda>j. MNIST is_train ! (j * nat k))
                  [0..<nat \<lceil>real (length (MNIST is_train)) / real_of_int k\<rceil>])"
proof -
  let ?full = "MNIST is_train"
  let ?n = "nat \<lceil>real (length ?full) / real_of_int k\<rceil>"
  have r: "py_range 0 (int (length ?full)) k = Inr (map (\<lambda>j. int j * k) [0..<?n])"
    using assms by (simp add: py_range_def range_up_eq)
  have idx: "nat (int j * k) = j * nat k" for j
    using assms by (simp add: nat_mult_distrib)
  show ?thesis
    by (simp add: sub_dataset_def Let_def r Subset_def idx o_def)
qed

text \<open>
  Claim C4. For a full dataset of \<open>N\<close> examples and a positive stride \<open>k\<close>, the
  subsampling of \<open>get_dataloader\<close> gives exactly \<open>\<lceil>N / k\<rceil>\<close> examples, the ones at the
  indices \<open>0, k, 2k, \<dots>\<close> of the full dataset, in that order; this is the dataset of
  the loader that \<open>get_dataloader\<close> returns; and a caller that gives no stride gets the
  stride 5.
\<close>

theorem get_dataloader_subsampling:
  assumes "0 < k"
  shows "(\<exists>sub. sub_dataset MNIST is_train k = Inr sub
            \<and> length sub = nat \<lceil>real (length (MNIST is_train)) / real_of_int k\<rceil>
            \<and> sub = map (\<lambda>j. MNIST is_train ! (j * nat k))
                       [0..<nat \<lceil>real (length (MNIST is_train)) / real_of_int k\<rceil>]
            \<and> get_dataloader MNIST is_train bs (Some k) = DataLoader sub bs is_train)
         \<and> get_dataloader MNIST is_train bs None = get_dataloader MNIST is_train bs (Some 5)"
  using assms by (simp add: sub_dataset_eq get_dataloader_def)

theorem get_dataloader_subsampling_witness:
  "(0::int) < 3
   \<and> sub_dataset (\<lambda>_. [(10, 1), (11, 2), (12, 3), (13, 4), (14, 5), (15, 6), (16::nat, 7)])
        False 3 = Inr [(10, 1), (13, 4), (16, 7)]
   \<and> get_dataloader (\<lambda>_. [(10, 1), (11, 2), (12, 3), (13, 4), (14, 5), (15, 6), (16::nat, 7)])
        False 2 (Some 3)
       = Inr \<lparr>dataset = [(10, 1), (13, 4), (16, 7)], batch_size = 2, shuffle = False\<rparr>"
  using get_dataloader_subsampling
    [of 3 "\<lambda>_. [(10, 1), (11, 2), (12, 3), (13, 4), (14, 5), (15, 6), (16::nat, 7)]" False 2]
  by (auto simp add: upt_rec DataLoader_def)

section \<open>Properties of the validator\<close>

text \<open>
  In evaluation mode a forward pass never raises and leaves the model as it is, so the
  loop of \<open>validate_model\<close> runs to its end and sees the same model at every batch.
\<close>

lemma call_model_eval:
  "\<not> training m \<Longrightarrow> call_model E m images w =
     Inr (forward E m images, m,
          w\<lparr>forward_calls := forward_calls w @ [(False, grad_enabled w)]\<rparr>)"
  by (simp add: call_model_def)

lemma validate_step_eval:
  assumes "\<not> training (v_model s)"
  shows "validate_step E lf li bi i b s =
     Inr \<lparr>v_val_loss = v_val_loss s + lf (forward E (v_model s) (fst b)) (snd b) * real (length (snd b)),
          v_correct = v_correct s + n_correct (map argmax (forward E (v_model s) (fst b))) (snd b),
          v_model = v_model s,
          v_world = (v_world s)
             \<lparr>forward_calls := forward_calls (v_world s) @ [(False, grad_enabled (v_world s))],
              wandb_calls := wandb_calls (v_world s) @
                 (if i = bi \<and> li then [table_call E (v_model s) b] else [])\<rparr>\<rparr>"
  using assms
  by (cases b)
     (simp add: validate_step_def call_model_eval Let_def log_image_table_def wandb_log_def
        predictions_table_def table_call_def)

lemma validate_loop_eval:
  assumes "\<not> training (v_model s)"
  shows "validate_loop E lf li bi i bs s =
     (None,
      \<lparr>v_val_loss = v_val_loss s
          + (\<Sum>(images, labels)\<leftarrow>bs. lf (forward E (v_model s) images) labels * real (length labels)),
       v_correct = v_correct s
          + (\<Sum>(images, labels)\<leftarrow>bs. n_correct (map argmax (forward E (v_model s) images)) labels),
       v_model = v_model s,
       v_world = (v_world s)
          \<lparr>forward_calls := forward_calls (v_world s)
              @ replicate (length bs) (False, grad_enabled (v_world s)),
           wandb_calls := wandb_calls (v_world s) @
              (if li \<and> i \<le> bi \<and> bi < i + length bs
               then [table_call E (v_model s) (bs ! (bi - i))] else [])\<rparr>\<rparr>)"
  using assms
proof (induction bs arbitrary: i s)
  case Nil
  then show ?case by simp
next
  case (Cons b bs)
  let ?s = "\<lparr>v_val_loss = v_val_loss s + lf (forward E (v_model s) (fst b)) (snd b) * real (length (snd b)),
          v_correct = v_correct s + n_correct (map argmax (forward E (v_model s) (fst b))) (snd b),
          v_model = v_model s,
          v_world = (v_world s)
             \<lparr>forward_calls := forward_calls (v_world s) @ [(False, grad_enabled (v_world s))],
              wandb_calls := wandb_calls (v_world s) @
                 (if i = bi \<and> li then [table_call E (v_model s) b] else [])\<rparr>\<rparr>"
  have step: "validate_step E lf li bi i b s = Inr ?s"
    using Cons.prems by (rule validate_step_eval)
  have t: "\<not> training (v_model ?s)" using Cons.prems by simp
  have idx: "bi - i = Suc (bi - Suc i)" if "i < bi" using that by simp
  have "validate_loop E lf li bi i (b # bs) s = validate_loop E lf li bi (Suc i) bs ?s"
    by (simp add: step)
  also note Cons.IH[OF t, of "Suc i"]
  finally show ?case
    by (cases b) (auto simp add: replicate_app_Cons_same idx)
qed

lemma iter_loader_grad:
  "fst (iter_loader E dl (w\<lparr>grad_enabled := g\<rparr>)) = fst (iter_loader E dl w)"
  by (simp add: iter_loader_def Let_def split: prod.splits if_splits)

lemma iter_loader_world:
  "snd (iter_loader E dl w) = w\<lparr>torch_rng := (if shuffle dl then torch_rng w + 1 else torch_rng w)\<rparr>"
  by (simp add: iter_loader_def Let_def split: prod.splits)

lemma validate_model_result:
  "fst (validate_model E m valid_dl lf li bi w) =
     (let bs = fst (iter_loader E valid_dl w); m' = m\<lparr>training := False\<rparr>;
          n = length (dataset valid_dl)
      in if n = 0 then Inl ZeroDivisionError
         else Inr ((\<Sum>(images, labels)\<leftarrow>bs. lf (forward E m' images) labels * real (length labels)) / real n,
                   real (\<Sum>(images, labels)\<leftarrow>bs. n_correct (map argmax (forward E m' images)) labels) / real n))"
proof -
  obtain bs w0 where it: "iter_loader E valid_dl (w\<lparr>grad_enabled := False\<rparr>) = (bs, w0)"
    by (cases "iter_loader E valid_dl (w\<lparr>grad_enabled := False\<rparr>)")
  then have bs: "fst (iter_loader E valid_dl w) = bs"
    using iter_loader_grad[where g = False and w = w and E = E and dl = valid_dl] by simp
  show ?thesis
    by (simp add: validate_model_def it bs Let_def validate_loop_eval)
qed

lemma validate_model_state:
  "snd (validate_model E m valid_dl lf li bi w) =
     (m\<lparr>training := False\<rparr>,
      w\<lparr>torch_rng := (if shuffle valid_dl then torch_rng w + 1 else torch_rng w),
        forward_calls := forward_calls w
           @ replicate (length (fst (iter_loader E valid_dl w))) (False, False),
        wandb_calls := wandb_calls w @
           (if li \<and> bi < length (fst (iter_loader E valid_dl w))
            then [table_call E (m\<lparr>training := False\<rparr>) (fst (iter_loader E valid_dl w) ! bi)]
            else [])\<rparr>)"
proof -
  obtain bs w0 where it: "iter_loader E valid_dl (w\<lparr>grad_enabled := False\<rparr>) = (bs, w0)"
    by (cases "iter_loader E valid_dl (w\<lparr>grad_enabled := False\<rparr>)")
  then have bs: "fst (iter_loader E valid_dl w) = bs"
    using iter_loader_grad[where g = False and w = w and E = E and dl = valid_dl] by simp
  have w0: "w0 = w\<lparr>grad_enabled := False,
                    torch_rng := (if shuffle valid_dl then torch_rng w + 1 else torch_rng w)\<rparr>"
    using iter_loader_world[of E valid_dl "w\<lparr>grad_enabled := False\<rparr>"] it by simp
  show ?thesis
    by (simp add: validate_model_def it bs Let_def validate_loop_eval w0)
qed

text \<open>
  \<open>argmax\<close> is the index of the first greatest entry of a row that is not empty.
\<close>

lemma argmax_from_first_max:
  assumes "bi < length pre"
    and "\<forall>j<length pre. pre ! j \<le> pre ! bi"
    and "\<forall>j<bi. pre ! j < pre ! bi"
  shows "argmax_from (length pre) bi (pre ! bi) vs < length (pre @ vs)
         \<and> (\<forall>j<length (pre @ vs). (pre @ vs) ! j \<le> (pre @ vs) ! argmax_from (length pre) bi (pre ! bi) vs)
         \<and> (\<forall>j<argmax_from (length pre) bi (pre ! bi) vs.
               (pre @ vs) ! j < (pre @ vs) ! argmax_from (length pre) bi (pre ! bi) vs)"
  using assms
proof (induction vs arbitrary: pre bi)
  case Nil
  then show ?case by simp
next
  case (Cons v vs)
  show ?case
  proof (cases "pre ! bi < v")
    case True
    let ?pre = "pre @ [v]"
    have a: "length pre < length ?pre" by simp
    have b: "\<forall>j<length ?pre. ?pre ! j \<le> ?pre ! length pre"
      using Cons.prems True by (auto simp: nth_append less_Suc_eq intro: order.trans less_imp_le)
    have c: "\<forall>j<length pre. ?pre ! j < ?pre ! length pre"
      using Cons.prems True by (auto simp: nth_append intro: le_less_trans)
    from Cons.IH[OF a b c] show ?thesis using True by simp
  next
    case False
    let ?pre = "pre @ [v]"
    have a: "bi < length ?pre" using Cons.prems by simp
    have b: "\<forall>j<length ?pre. ?pre ! j \<le> ?pre ! bi"
      using Cons.prems False by (auto simp: nth_append less_Suc_eq)
    have c: "\<forall>j<bi. ?pre ! j < ?pre ! bi"
      using Cons.prems by (auto simp: nth_append)
    have d: "?pre ! bi = pre ! bi" using Cons.prems by (simp add: nth_append)
    from Cons.IH[OF a b c] show ?thesis using False d by simp
  qed
qed

lemma argmax_first_max:
  assumes "row \<noteq> []"
  shows "argmax row < length row
         \<and> (\<forall>j<length row. row ! j \<le> row ! argmax row)
         \<and> (\<forall>j<argmax row. row ! j < row ! argmax row)"
proof -
  obtain v vs where row: "row = v # vs" using assms by (cases row) auto
  have "argmax row = argmax_from (length [v]) 0 ([v] ! 0) vs"
    by (simp add: argmax_def row)
  moreover have "row = [v] @ vs" by (simp add: row)
  ultimately show ?thesis
    using argmax_from_first_max[of 0 "[v]" vs] by simp
qed

lemma n_correct_le: "n_correct predicted labels \<le> length labels"
proof -
  have "n_correct predicted labels \<le> length (zip predicted labels)"
    unfolding n_correct_def by (rule length_filter_le)
  then show ?thesis by simp
qed

lemma n_correct_index:
  "n_correct (map argmax outputs) labels =
     length (filter (\<lambda>i. argmax (outputs ! i) = labels ! i)
                    [0..<min (length outputs) (length labels)])"
proof -
  have "filter (\<lambda>(p, l). p = l) (zip (map argmax outputs) labels)
          = map (\<lambda>i. (argmax (outputs ! i), labels ! i))
              (filter (\<lambda>i. argmax (outputs ! i) = labels ! i) [0..<min (length outputs) (length labels)])"
    (is "filter ?P ?z = _")
  proof -
    have "?z = map (\<lambda>i. (argmax (outputs ! i), labels ! i)) [0..<min (length outputs) (length labels)]"
      by (rule nth_equalityI) simp_all
    then show ?thesis by (simp add: filter_map o_def)
  qed
  then show ?thesis by (simp add: n_correct_def)
qed

lemma chunks_Nil [simp]: "chunks n [] = []"
  by (simp add: chunks.simps)

lemma chunks_total: "sum_list (map length (chunks n xs)) \<le> length xs"
proof (induction n xs rule: chunks.induct)
  case (1 n xs)
  show ?case
  proof (cases "n = 0 \<or> xs = []")
    case True
    then show ?thesis by (simp add: chunks.simps[of n xs])
  next
    case False
    then show ?thesis using 1 by (simp add: chunks.simps[of n xs])
  qed
qed

lemma chunks_concat: "0 < n \<Longrightarrow> concat (chunks n xs) = xs"
proof (induction n xs rule: chunks.induct)
  case (1 n xs)
  show ?case
  proof (cases "xs = []")
    case True
    then show ?thesis by simp
  next
    case False
    then show ?thesis using 1 by (simp add: chunks.simps[of n xs])
  qed
qed

lemma chunks_nonempty: "b \<in> set (chunks n xs) \<Longrightarrow> b \<noteq> [] \<and> length b \<le> n"
proof (induction n xs rule: chunks.induct)
  case (1 n xs)
  show ?case
  proof (cases "n = 0 \<or> xs = []")
    case True
    then show ?thesis using 1(2) by (simp add: chunks.simps[of n xs])
  next
    case False
    then show ?thesis using 1 by (auto simp add: chunks.simps[of n xs])
  qed
qed

text \<open>
  A loader that does not shuffle hands out every example of its dataset once, in order.
\<close>

lemma iter_loader_covers:
  assumes "0 < batch_size dl" and "\<not> shuffle dl"
  shows "concat (map fst (fst (iter_loader E dl w))) = map fst (dataset dl)"
    and "concat (map snd (fst (iter_loader E dl w))) = map snd (dataset dl)"
proof -
  let ?n = "length (dataset dl)"
  let ?cs = "chunks (batch_size dl) [0..<?n]"
  have bs: "fst (iter_loader E dl w) = map (\<lambda>ib. collate (map (\<lambda>i. dataset dl ! i) ib)) ?cs"
    using assms(2) by (simp add: iter_loader_def Let_def)
  have c: "concat ?cs = [0..<?n]" using assms(1) by (rule chunks_concat)
  have "concat (map fst (fst (iter_loader E dl w)))
          = map (\<lambda>i. fst (dataset dl ! i)) (concat ?cs)"
    by (simp add: bs collate_def o_def map_concat)
  also have "\<dots> = map fst (map (\<lambda>i. dataset dl ! i) [0..<?n])" by (simp add: c)
  also have "\<dots> = map fst (dataset dl)" by (simp only: map_nth)
  finally show "concat (map fst (fst (iter_loader E dl w))) = map fst (dataset dl)" .
  have "concat (map snd (fst (iter_loader E dl w)))
          = map (\<lambda>i. snd (dataset dl ! i)) (concat ?cs)"
    by (simp add: bs collate_def o_def map_concat)
  also have "\<dots> = map snd (map (\<lambda>i. dataset dl ! i) [0..<?n])" by (simp add: c)
  also have "\<dots> = map snd (dataset dl)" by (simp only: map_nth)
  finally show "concat (map snd (fst (iter_loader E dl w))) = map snd (dataset dl)" .
qed

lemma iter_loader_total:
  assumes "shuffle dl \<Longrightarrow> sampler_ok E"
  shows "(\<Sum>(images, labels)\<leftarrow>fst (iter_loader E dl w). length labels) \<le> length (dataset dl)"
proof -
  let ?n = "length (dataset dl)"
  let ?idx = "if shuffle dl then randperm E (torch_rng w) ?n else [0..<?n]"
  have len: "length ?idx = ?n"
  proof (cases "shuffle dl")
    case True
    then have "mset (randperm E (torch_rng w) ?n) = mset [0..<?n]"
      using assms by (simp add: sampler_ok_def)
    then have "length (randperm E (torch_rng w) ?n) = length [0..<?n]"
      by (rule mset_eq_length)
    then show ?thesis using True by simp
  next
    case False
    then show ?thesis by simp
  qed
  have "fst (iter_loader E dl w) =
          map (\<lambda>ib. collate (map (\<lambda>i. dataset dl ! i) ib)) (chunks (batch_size dl) ?idx)"
    by (simp add: iter_loader_def Let_def split: prod.splits)
  then have "(\<Sum>(images, labels)\<leftarrow>fst (iter_loader E dl w). length labels)
               = sum_list (map length (chunks (batch_size dl) ?idx))"
    by (simp add: o_def collate_def)
  also have "\<dots> \<le> length ?idx" by (rule chunks_total)
  finally show ?thesis using len by simp
qed

lemma sum_list_mono_le:
  "(\<And>x. x \<in> set xs \<Longrightarrow> f x \<le> (g x :: nat)) \<Longrightarrow> sum_list (map f xs) \<le> sum_list (map g xs)"
  by (induction xs) (auto intro: add_mono)

lemma toy_batches:
  "fst (iter_loader toy_externals toy_loader w) = [([0, 5], [1, 0]), ([3, 0], [1, 0]), ([7], [0])]"
  by (simp add: iter_loader_def toy_loader_def Let_def chunks.simps upt_rec collate_def)

lemma toy_forward_plain:
  "toy_forward (toy_model\<lparr>training := tr\<rparr>) images = map (\<lambda>x. [real x, 1]) images"
  by (simp add: toy_forward_def toy_model_def image_shape_def)

lemma toy_sampler_ok: "sampler_ok toy_externals"
  by (simp add: sampler_ok_def toy_externals_def)

text \<open>
  On the toy loader (five examples in batches of two, so three batches of loss 2) the
  mean loss is \<open>(2 * 2 + 2 * 2 + 2 * 1) / 5 = 2\<close>, not \<open>10 / 3\<close>, and three of the five
  predictions are right.
\<close>

lemma validate_model_toy:
  "fst (validate_model toy_externals toy_model toy_loader (CrossEntropyLoss toy_externals)
          False 0 initial_world) = Inr (2, 3 / 5)"
  by (simp add: validate_model_result toy_batches Let_def)
     (simp add: toy_externals_def toy_forward_plain toy_loader_def n_correct_def argmax_def)

text \<open>
  Claim C1, as amended. For every validation loader over a dataset that is not empty,
  and every loss function, \<open>validate_model\<close> returns a pair whose first component is
  the sum over the batches of the batch loss times the batch size, divided by the size
  of the dataset (not by the number of batches).
\<close>

theorem validate_model_mean_loss:
  assumes "dataset valid_dl \<noteq> []"
  shows "\<exists>acc. fst (validate_model E m valid_dl loss_func log_images batch_idx w) =
           Inr ((\<Sum>(images, labels)\<leftarrow>fst (iter_loader E valid_dl w).
                    loss_func (forward E (m\<lparr>training := False\<rparr>) images) labels * real (length labels))
                  / real (length (dataset valid_dl)), acc)"
  using assms by (simp add: validate_model_result Let_def)

theorem validate_model_mean_loss_witness:
  "dataset toy_loader \<noteq> []
   \<and> (\<exists>acc. fst (validate_model toy_externals toy_model toy_loader
                   (CrossEntropyLoss toy_externals) False 0 initial_world) = Inr (2, acc))"
proof -
  have h: "dataset toy_loader \<noteq> []" by (simp add: toy_loader_def)
  have "(\<Sum>(images, labels)\<leftarrow>fst (iter_loader toy_externals toy_loader initial_world).
           CrossEntropyLoss toy_externals (forward toy_externals (toy_model\<lparr>training := False\<rparr>) images) labels
             * real (length labels)) / real (length (dataset toy_loader)) = 2"
    by (simp add: toy_batches) (simp add: toy_externals_def toy_loader_def)
  then show ?thesis
    using h validate_model_mean_loss[OF h, of toy_externals toy_model "CrossEntropyLoss toy_externals" False 0 initial_world]
    by simp
qed

text \<open>
  Claim C1 as stated speaks of every validation dataset. Over the empty dataset
  \<open>validate_model\<close> returns nothing: the division by the size of the dataset raises.
\<close>

theorem validate_model_empty_dataset:
  "fst (validate_model toy_externals toy_model \<lparr>dataset = [], batch_size = 256, shuffle = False\<rparr>
         (CrossEntropyLoss toy_externals) False 0 initial_world) = Inl ZeroDivisionError"
  by (simp add: validate_model_result)

text \<open>
  Claim C3. For every model and every validation loader over a dataset that is not
  empty, the accuracy that \<open>validate_model\<close> returns lies between 0 and 1 and is the
  number of examples whose first greatest logit sits at the index of their label (counted
  batch by batch, position by position; the batches hold every example once), divided
  by the size of the dataset. A loader that shuffles needs a sampler that draws
  permutations.
\<close>

theorem validate_model_accuracy:
  assumes "dataset valid_dl \<noteq> []" and "shuffle valid_dl \<Longrightarrow> sampler_ok E"
  shows "\<exists>loss acc.
           fst (validate_model E m valid_dl loss_func log_images batch_idx w) = Inr (loss, acc)
           \<and> 0 \<le> acc \<and> acc \<le> 1
           \<and> acc = real (\<Sum>(images, labels)\<leftarrow>fst (iter_loader E valid_dl w).
                      length (filter (\<lambda>i. argmax (forward E (m\<lparr>training := False\<rparr>) images ! i) = labels ! i)
                                [0..<min (length (forward E (m\<lparr>training := False\<rparr>) images)) (length labels)]))
                   / real (length (dataset valid_dl))"
proof -
  let ?bs = "fst (iter_loader E valid_dl w)"
  let ?m = "m\<lparr>training := False\<rparr>"
  let ?c = "\<Sum>(images, labels)\<leftarrow>?bs. n_correct (map argmax (forward E ?m images)) labels"
  let ?n = "length (dataset valid_dl)"
  have n: "0 < ?n" using assms(1) by simp
  have "?c \<le> (\<Sum>(images, labels)\<leftarrow>?bs. length labels)"
    by (rule sum_list_mono_le) (auto simp: n_correct_le)
  also have "\<dots> \<le> ?n" using assms(2) by (rule iter_loader_total)
  finally have le: "?c \<le> ?n" .
  have acc: "real ?c / real ?n \<le> 1" using le n by simp
  have idx: "?c = (\<Sum>(images, labels)\<leftarrow>?bs.
                length (filter (\<lambda>i. argmax (forward E ?m images ! i) = labels ! i)
                          [0..<min (length (forward E ?m images)) (length labels)]))"
    by (simp add: n_correct_index)
  have "fst (validate_model E m valid_dl loss_func log_images batch_idx w) =
          Inr ((\<Sum>(images, labels)\<leftarrow>?bs. loss_func (forward E ?m images) labels * real (length labels)) / real ?n,
               real ?c / real ?n)"
    using n by (simp add: validate_model_result Let_def)
  then show ?thesis using acc idx by simp
qed

theorem validate_model_accuracy_witness:
  "dataset toy_shuffling_loader \<noteq> []
   \<and> shuffle toy_shuffling_loader \<and> sampler_ok toy_externals
   \<and> (\<exists>loss acc. fst (validate_model toy_externals toy_model toy_shuffling_loader
                   (CrossEntropyLoss toy_externals) False 0 initial_world) = Inr (loss, acc)
          \<and> 0 \<le> acc \<and> acc \<le> 1)"
proof -
  have h1: "dataset toy_shuffling_loader \<noteq> []"
    by (simp add: toy_shuffling_loader_def toy_loader_def)
  have h2: "sampler_ok toy_externals" by (rule toy_sampler_ok)
  have h3: "shuffle toy_shuffling_loader" by (simp add: toy_shuffling_loader_def)
  show ?thesis
    using h1 h2 h3
      validate_model_accuracy[OF h1 h2, of toy_model "CrossEntropyLoss toy_externals" False 0 initial_world]
    by auto
qed

text \<open>
  Claim C7. For every model, validation loader and loss function, \<open>validate_model\<close>
  leaves the parameters of the model as they were (and its buffers too, since it puts
  the model in evaluation mode first); each of its forward passes, one for each batch,
  runs in evaluation mode with gradient computation switched off, and the switch is
  back at its former position afterwards. This holds whether the call returns or
  raises.
\<close>

theorem validate_model_frame:
  "params (fst (snd (validate_model E m valid_dl loss_func log_images batch_idx w))) = params m
   \<and> buffers (fst (snd (validate_model E m valid_dl loss_func log_images batch_idx w))) = buffers m
   \<and> grad_enabled (snd (snd (validate_model E m valid_dl loss_func log_images batch_idx w)))
       = grad_enabled w
   \<and> forward_calls (snd (snd (validate_model E m valid_dl loss_func log_images batch_idx w)))
       = forward_calls w @ replicate (length (fst (iter_loader E valid_dl w))) (False, False)"
  by (simp add: validate_model_state)

section \<open>Properties of the model builder and of the configuration\<close>

text \<open>
  The network of \<open>get_model\<close> takes a batch of \<open>b\<close> images to \<open>b\<close> rows of ten logits,
  but for the batch of one image in training mode, which its batch normalization
  refuses.
\<close>

lemma network_shape:
  "sequential_shape tr [Flatten, Linear 784 256, BatchNorm1d 256, ReLU, Dropout p, Linear 256 10]
     (b # image_shape) = (if tr \<and> b = 1 then Inl ValueError else Inr [b, 10])"
  by (simp add: image_shape_def)

lemma network_shape_flat:
  "sequential_shape tr [Flatten, Linear 784 256, BatchNorm1d 256, ReLU, Dropout p, Linear 256 10]
     [b, 784] = (if tr \<and> b = 1 then Inl ValueError else Inr [b, 10])"
  by simp

lemma network_refuses:
  "batch_norm_refuses [Flatten, Linear 784 256, BatchNorm1d 256, ReLU, Dropout p, Linear 256 10]
     (b # image_shape) \<longleftrightarrow> b = 1"
  by (simp add: image_shape_def)

lemma get_model_eq:
  assumes "0 \<le> p" and "p \<le> 1"
  shows "get_model E p =
           Inr \<lparr>layers = [Flatten, Linear 784 256, BatchNorm1d 256, ReLU, Dropout p, Linear 256 10],
                params = init_params E
                  [Flatten, Linear 784 256, BatchNorm1d 256, ReLU, Dropout p, Linear 256 10],
                buffers = init_buffers E
                  [Flatten, Linear 784 256, BatchNorm1d 256, ReLU, Dropout p, Linear 256 10],
                training = True\<rparr>"
  using assms by (simp add: get_model_def nn_Dropout_def Let_def)

lemma network_outputs:
  assumes "shapes_ok E"
    and "layers m = [Flatten, Linear 784 256, BatchNorm1d 256, ReLU, Dropout p, Linear 256 10]"
    and "training m \<Longrightarrow> length images \<noteq> 1"
  shows "length (forward E m images) = length images"
    and "\<forall>row\<in>set (forward E m images). length row = 10"
    and "\<forall>row\<in>set (forward E m images). length (softmax E row) = 10"
proof -
  have "sequential_shape (training m) (layers m) (length images # image_shape)
          = Inr [length images, 10]"
    unfolding assms(2) network_shape using assms(3) by simp
  then have a: "length (forward E m images) = length images
                \<and> (\<forall>row\<in>set (forward E m images). length row = 10)"
    using assms(1) unfolding shapes_ok_def by blast
  show "length (forward E m images) = length images" using a by simp
  show "\<forall>row\<in>set (forward E m images). length row = 10" using a by simp
  then show "\<forall>row\<in>set (forward E m images). length (softmax E row) = 10"
    using assms(1) unfolding shapes_ok_def by simp
qed

text \<open>
  Claim C5, as amended. For every dropout probability \<open>p\<close> in \<open>[0, 1)\<close>, \<open>get_model\<close>
  returns a network in training mode with the layers Flatten, Linear 784 to 256,
  BatchNorm1d 256, ReLU, Dropout \<open>p\<close>, Linear 256 to 10. It takes a batch of \<open>b\<close> images of
  shape 1 by 28 by 28 (or already flattened to 784 values) to \<open>b\<close> rows of exactly 10
  logits, in evaluation mode for every \<open>b > 0\<close> and in training mode for every \<open>b > 1\<close>;
  in training mode, the mode in which it is returned, it refuses a batch of one image.
  With numerics that respect the shapes, the forward pass of the returned network over
  two images or more gives a row of 10 logits for each image.
\<close>

theorem get_model_architecture:
  assumes "0 \<le> p" and "p < 1"
  shows "\<exists>m. get_model E p = Inr m
           \<and> layers m = [Flatten, Linear 784 256, BatchNorm1d 256, ReLU, Dropout p, Linear 256 10]
           \<and> training m
           \<and> (\<forall>b tr. 0 < b \<and> (tr \<longrightarrow> b \<noteq> 1) \<longrightarrow>
                  sequential_shape tr (layers m) (b # image_shape) = Inr [b, 10]
                  \<and> sequential_shape tr (layers m) [b, 784] = Inr [b, 10])
           \<and> sequential_shape True (layers m) (1 # image_shape) = Inl ValueError
           \<and> (\<forall>x w. call_model E m [x] w = Inl ValueError)
           \<and> (\<forall>images w. shapes_ok E \<and> 2 \<le> length images \<longrightarrow>
                  (\<exists>outputs m' w'. call_model E m images w = Inr (outputs, m', w')
                      \<and> length outputs = length images
                      \<and> (\<forall>row\<in>set outputs. length row = 10)))"
proof -
  let ?ls = "[Flatten, Linear 784 256, BatchNorm1d 256, ReLU, Dropout p, Linear 256 10]"
  let ?m = "\<lparr>layers = ?ls, params = init_params E ?ls, buffers = init_buffers E ?ls,
              training = True\<rparr>"
  have g: "get_model E p = Inr ?m" using assms by (simp add: get_model_eq)
  have s: "\<forall>b tr. 0 < b \<and> (tr \<longrightarrow> b \<noteq> 1) \<longrightarrow>
             sequential_shape tr (layers ?m) (b # image_shape) = Inr [b, 10]
             \<and> sequential_shape tr (layers ?m) [b, 784] = Inr [b, 10]"
    by (auto simp add: image_shape_def)
  have r: "sequential_shape True (layers ?m) (1 # image_shape) = Inl ValueError"
    by (simp add: image_shape_def)
  have one: "\<forall>x w. call_model E ?m [x] w = Inl ValueError"
    by (simp add: call_model_def image_shape_def)
  have more: "\<forall>images w. shapes_ok E \<and> 2 \<le> length images \<longrightarrow>
                  (\<exists>outputs m' w'. call_model E ?m images w = Inr (outputs, m', w')
                      \<and> length outputs = length images
                      \<and> (\<forall>row\<in>set outputs. length row = 10))"
  proof (intro allI impI)
    fix images :: "'a list" and w :: "'a world"
    assume a: "shapes_ok E \<and> 2 \<le> length images"
    have l: "layers ?m = [Flatten, Linear 784 256, BatchNorm1d 256, ReLU, Dropout p, Linear 256 10]"
      by simp
    have n: "training ?m \<Longrightarrow> length images \<noteq> 1" using a by simp
    have "length (forward E ?m images) = length images"
      and "\<forall>row\<in>set (forward E ?m images). length row = 10"
      using network_outputs(1,2)[OF _ l n] a by blast+
    moreover have "\<not> batch_norm_refuses ?ls (length images # image_shape)"
      using a by (simp add: image_shape_def)
    ultimately show "\<exists>outputs m' w'. call_model E ?m images w = Inr (outputs, m', w')
                      \<and> length outputs = length images
                      \<and> (\<forall>row\<in>set outputs. length row = 10)"
      by (simp add: call_model_def)
  qed
  show ?thesis
    using g s r one more by (intro exI[of _ ?m] conjI) simp_all
qed

lemma toy_shapes_ok: "shapes_ok toy_externals"
  unfolding shapes_ok_def
  by (auto simp add: toy_externals_def toy_forward_def)

lemma toy_get_model: "get_model toy_externals (1 / 2) = Inr toy_network"
  by (simp add: get_model_eq toy_network_def toy_externals_def)

theorem get_model_architecture_witness:
  "(0::real) \<le> 1 / 2 \<and> (1 / 2 :: real) < 1
   \<and> (\<exists>m. get_model toy_externals (1 / 2) = Inr m
         \<and> layers m = [Flatten, Linear 784 256, BatchNorm1d 256, ReLU, Dropout (1 / 2), Linear 256 10]
         \<and> training m
         \<and> sequential_shape True (layers m) (128 # image_shape) = Inr [128, 10]
         \<and> sequential_shape False (layers m) (1 # image_shape) = Inr [1, 10]
         \<and> sequential_shape True (layers m) (1 # image_shape) = Inl ValueError)"
proof -
  obtain m where m: "get_model toy_externals (1 / 2) = Inr m"
      "layers m = [Flatten, Linear 784 256, BatchNorm1d 256, ReLU, Dropout (1 / 2), Linear 256 10]"
      "training m"
      "\<forall>b tr. 0 < b \<and> (tr \<longrightarrow> b \<noteq> 1) \<longrightarrow>
          sequential_shape tr (layers m) (b # image_shape) = Inr [b, 10]
          \<and> sequential_shape tr (layers m) [b, 784] = Inr [b, 10]"
      "sequential_shape True (layers m) (1 # image_shape) = Inl ValueError"
    using get_model_architecture[of "1 / 2" toy_externals] by auto
  have "sequential_shape True (layers m) (128 # image_shape) = Inr [128, 10]"
    using m(4) by simp
  moreover have "sequential_shape False (layers m) (1 # image_shape) = Inr [1, 10]"
    using m(4) by simp
  ultimately show ?thesis using m(1,2,3,5) by auto
qed

text \<open>
  Claim C5 as stated has the returned classifier take an input image to 10 logits.
  The classifier is returned in training mode, and applied to a batch of one image it
  raises.
\<close>

theorem get_model_single_image:
  "get_model toy_externals (1 / 2) = Inr toy_network
   \<and> call_model toy_externals toy_network [7] initial_world = Inl ValueError"
  by (simp add: toy_get_model call_model_def toy_network_def image_shape_def)

lemma random_uniform_range:
  assumes "a < b"
  shows "a \<le> fst (random_uniform E a b w) \<and> fst (random_uniform E a b w) < b"
proof -
  let ?r = "real (getrandbits53 E (py_rng w) mod 2 ^ 53) / 2 ^ 53"
  have r0: "0 \<le> ?r" by simp
  have "getrandbits53 E (py_rng w) mod 2 ^ 53 < (2::nat) ^ 53" by simp
  then have "real (getrandbits53 E (py_rng w) mod 2 ^ 53) < real ((2::nat) ^ 53)"
    by (simp only: of_nat_less_iff)
  then have r1: "?r < 1" by simp
  have v: "fst (random_uniform E a b w) = a + (b - a) * ?r"
    by (simp add: random_uniform_def random_random_def)
  have "0 \<le> (b - a) * ?r" using assms r0 by simp
  moreover have "(b - a) * ?r < (b - a) * 1"
    using assms r1 by (intro mult_strict_left_mono) simp_all
  ultimately show ?thesis unfolding v by simp
qed

lemma make_config_fields:
  "epochs (fst (make_config E w)) = 5"
  "cfg_batch_size (fst (make_config E w)) = 128"
  "lr (fst (make_config E w)) = 1 / 1000"
  "dropout (fst (make_config E w)) = fst (random_uniform E (1 / 100) (80 / 100) w)"
  by (simp_all add: make_config_def split: prod.splits)

text \<open>
  Claim C6. The dropout probability that a trial samples at its start is at least 0.01
  and less than 0.80, whatever the random bits are.
\<close>

theorem make_config_dropout:
  "1 / 100 \<le> dropout (fst (make_config E w)) \<and> dropout (fst (make_config E w)) < 80 / 100"
  using random_uniform_range[of "1 / 100" "80 / 100" E w] by (simp add: make_config_fields)

lemma subsample_nonempty:
  assumes "full \<noteq> []"
  shows "map (\<lambda>j. full ! (j * 5)) [0..<nat \<lceil>real (length full) / 5\<rceil>] \<noteq> []"
proof -
  have "0 < real (length full) / 5" using assms by simp
  then have "0 < \<lceil>real (length full) / 5\<rceil>" by (simp only: zero_less_ceiling)
  then show ?thesis by simp
qed

lemma get_dataloader_default:
  assumes "0 < bs" and "is_train \<Longrightarrow> MNIST is_train \<noteq> []"
  shows "get_dataloader MNIST is_train bs None =
           Inr \<lparr>dataset = map (\<lambda>j. MNIST is_train ! (j * 5))
                            [0..<nat \<lceil>real (length (MNIST is_train)) / 5\<rceil>],
                batch_size = nat bs, shuffle = is_train\<rparr>"
proof -
  have "is_train \<Longrightarrow> map (\<lambda>j. MNIST is_train ! (j * 5))
                            [0..<nat \<lceil>real (length (MNIST is_train)) / 5\<rceil>] \<noteq> []"
    using assms(2) by (rule subsample_nonempty)
  then show ?thesis
    using assms(1) sub_dataset_eq[of 5 MNIST is_train]
    by (auto simp add: get_dataloader_def DataLoader_def)
qed

text \<open>
  Claim C10. In every trial (over training data that is not empty) the training loader
  has batch size 128, the validation loader twice that, 256, and the number of steps of
  an epoch is the size of the training dataset divided by the training batch size,
  rounded up.
\<close>

theorem make_loaders_sizes:
  assumes "MNIST True \<noteq> []"
  shows "\<exists>train_dl valid_dl.
      make_loaders MNIST (fst (make_config E w)) =
        Inr (train_dl, valid_dl, \<lceil>real (length (dataset train_dl)) / real (batch_size train_dl)\<rceil>)
      \<and> int (batch_size train_dl) = cfg_batch_size (fst (make_config E w))
      \<and> batch_size train_dl = 128
      \<and> batch_size valid_dl = 2 * batch_size train_dl
      \<and> batch_size valid_dl = 256"
  using assms
  by (simp add: make_loaders_def make_config_fields get_dataloader_default)

theorem make_loaders_sizes_witness:
  "toy_MNIST True \<noteq> []
   \<and> (\<exists>train_dl valid_dl.
      make_loaders toy_MNIST (fst (make_config toy_externals initial_world)) =
        Inr (train_dl, valid_dl, \<lceil>real (length (dataset train_dl)) / real (batch_size train_dl)\<rceil>)
      \<and> int (batch_size train_dl) = cfg_batch_size (fst (make_config toy_externals initial_world))
      \<and> batch_size train_dl = 128
      \<and> batch_size valid_dl = 2 * batch_size train_dl
      \<and> batch_size valid_dl = 256)"
proof -
  have h: "toy_MNIST True \<noteq> []" by (simp add: toy_MNIST_def)
  show ?thesis
    using h
      make_loaders_sizes[where MNIST = toy_MNIST and E = toy_externals and w = initial_world, OF h]
    by (rule conjI)
qed

section \<open>Properties of the training loop\<close>

text \<open>
  A loader with a positive batch size yields \<open>\<lceil>N / batch_size\<rceil>\<close> batches for a
  dataset of \<open>N\<close> examples, so the number of steps that \<open>main\<close> computes is the number
  of steps that an epoch makes. Every batch has \<open>batch_size\<close> examples, but the last,
  which has \<open>N mod batch_size\<close> when the sizes do not divide.
\<close>

lemma chunks_length:
  "0 < n \<Longrightarrow> int (length (chunks n xs)) = \<lceil>real (length xs) / real n\<rceil>"
proof (induction n xs rule: chunks.induct)
  case (1 n xs)
  show ?case
  proof (cases "xs = []")
    case True
    then show ?thesis by simp
  next
    case False
    have ih: "int (length (chunks n (drop n xs))) = \<lceil>real (length (drop n xs)) / real n\<rceil>"
      using 1 False by simp
    show ?thesis
    proof (cases "n \<le> length xs")
      case True
      then have "real (length (drop n xs)) / real n = real (length xs) / real n - 1"
        using 1(2) by (simp add: field_simps of_nat_diff)
      then have "\<lceil>real (length (drop n xs)) / real n\<rceil> = \<lceil>real (length xs) / real n\<rceil> - 1"
        by simp
      then show ?thesis using False 1(2) ih by (simp add: chunks.simps[of n xs])
    next
      case short: False
      then have d: "drop n xs = []" by simp
      have "0 < real (length xs) / real n" using False 1(2) by simp
      moreover have "real (length xs) / real n \<le> 1" using short 1(2) by simp
      ultimately have "\<lceil>real (length xs) / real n\<rceil> = 1"
        by (simp add: ceiling_eq_iff)
      then show ?thesis using False 1(2) d by (simp add: chunks.simps[of n xs])
    qed
  qed
qed

lemma chunks_lengths:
  assumes "0 < n" and "b \<in> set (chunks n xs)"
  shows "length b = n \<or> length b = length xs mod n"
  using assms
proof (induction n xs rule: chunks.induct)
  case (1 n xs)
  have ne: "xs \<noteq> []" using 1(3) by auto
  have c: "chunks n xs = take n xs # chunks n (drop n xs)"
    using 1(2) ne by (simp add: chunks.simps[of n xs])
  show ?case
  proof (cases "b = take n xs")
    case True
    then show ?thesis by (cases "n \<le> length xs") (simp_all add: min_def)
  next
    case False
    then have b: "b \<in> set (chunks n (drop n xs))" using 1(3) c by simp
    then have "drop n xs \<noteq> []" by auto
    then have le: "n \<le> length xs" by simp
    have "length b = n \<or> length b = length (drop n xs) mod n"
      using 1(1) 1(2) ne b by simp
    moreover have "length (drop n xs) mod n = length xs mod n"
      using le by (simp add: le_mod_geq)
    ultimately show ?thesis by simp
  qed
qed

lemma sampler_length:
  assumes "shuffle dl \<Longrightarrow> sampler_ok E"
  shows "length (if shuffle dl then randperm E k (length (dataset dl)) else [0..<length (dataset dl)])
           = length (dataset dl)"
proof (cases "shuffle dl")
  case True
  then have "mset (randperm E k (length (dataset dl))) = mset [0..<length (dataset dl)]"
    using assms by (simp add: sampler_ok_def)
  then have "length (randperm E k (length (dataset dl))) = length [0..<length (dataset dl)]"
    by (rule mset_eq_length)
  then show ?thesis using True by simp
next
  case False
  then show ?thesis by simp
qed

lemma iter_loader_batches:
  "fst (iter_loader E dl w) =
     map (\<lambda>ib. collate (map (\<lambda>i. dataset dl ! i) ib))
       (chunks (batch_size dl)
          (if shuffle dl then randperm E (torch_rng w) (length (dataset dl))
           else [0..<length (dataset dl)]))"
  by (simp add: iter_loader_def Let_def split: prod.splits)

lemma iter_loader_length:
  assumes "0 < batch_size dl" and "shuffle dl \<Longrightarrow> sampler_ok E"
  shows "int (length (fst (iter_loader E dl w)))
           = \<lceil>real (length (dataset dl)) / real (batch_size dl)\<rceil>"
proof -
  have "length (if shuffle dl then randperm E (torch_rng w) (length (dataset dl))
                else [0..<length (dataset dl)]) = length (dataset dl)"
    using assms(2) by (rule sampler_length)
  then show ?thesis
    using assms(1) by (simp only: iter_loader_batches length_map chunks_length)
qed

lemma iter_loader_batch_sizes:
  assumes "0 < batch_size dl" and "shuffle dl \<Longrightarrow> sampler_ok E"
    and "b \<in> set (fst (iter_loader E dl w))"
  shows "length (fst b) = batch_size dl
         \<or> length (fst b) = length (dataset dl) mod batch_size dl"
proof -
  let ?ix = "if shuffle dl then randperm E (torch_rng w) (length (dataset dl))
             else [0..<length (dataset dl)]"
  obtain ib where ib: "ib \<in> set (chunks (batch_size dl) ?ix)"
      "b = collate (map (\<lambda>i. dataset dl ! i) ib)"
    using assms(3) unfolding iter_loader_batches by auto
  have "length ?ix = length (dataset dl)" using assms(2) by (rule sampler_length)
  then have "length ib = batch_size dl \<or> length ib = length (dataset dl) mod batch_size dl"
    using chunks_lengths[OF assms(1) ib(1)] by simp
  then show ?thesis by (simp add: ib(2) collate_def)
qed

lemma iter_loader_first:
  assumes "0 < batch_size dl" and "\<not> shuffle dl" and "dataset dl \<noteq> []"
  shows "fst (iter_loader E dl w) \<noteq> [] \<and> fst (iter_loader E dl w) ! 0 = first_batch dl"
proof -
  let ?n = "length (dataset dl)"
  have ne: "[0..<?n] \<noteq> []" using assms(3) by simp
  have c: "chunks (batch_size dl) [0..<?n]
             = take (batch_size dl) [0..<?n] # chunks (batch_size dl) (drop (batch_size dl) [0..<?n])"
    using assms(1) ne by (subst chunks.simps) simp
  have "map (\<lambda>i. dataset dl ! i) (take (batch_size dl) [0..<?n]) = take (batch_size dl) (dataset dl)"
    by (simp add: take_map[symmetric] map_nth)
  then show ?thesis
    using assms(2) by (simp add: iter_loader_batches c first_batch_def)
qed

text \<open>
  A training step whose batch the network accepts binds \<open>metrics\<close> to its record and
  logs it unless it is the last step of the epoch; a step whose batch the network
  refuses raises. The loop over accepted batches logs the records of all steps but the
  last.
\<close>

lemma train_step_effect:
  assumes "\<not> batch_norm_refuses (layers (model s)) (length (fst b) # image_shape)"
  shows "\<exists>s' d. train_step E lf cfg n epoch step b s = Inr s'
           \<and> train_record d epoch (step_ct s)
           \<and> metrics s' = Some d
           \<and> step_ct s' = step_ct s + 1
           \<and> layers (model s') = layers (model s)
           \<and> wandb_calls (world s')
                = wandb_calls (world s) @ (if int step + 1 < n then [Log d True] else [])"
  using assms
  by (cases b)
     (simp add: train_step_def call_model_def Let_def train_record_def wandb_log_def
        split: prod.splits)

lemma train_step_refused:
  assumes "training (model s)"
    and "batch_norm_refuses (layers (model s)) (length (fst b) # image_shape)"
  shows "train_step E lf cfg n epoch step b s = Inl ValueError"
  using assms by (cases b) (simp add: train_step_def call_model_def)

lemma train_loop_effect:
  assumes "\<forall>b\<in>set bs. \<not> batch_norm_refuses (layers (model s)) (length (fst b) # image_shape)"
  shows "\<exists>s' ds. train_loop E lf cfg n epoch step bs s = Inr s'
           \<and> length ds = length bs
           \<and> (\<forall>k<length bs. train_record (ds ! k) epoch (step_ct s + k))
           \<and> step_ct s' = step_ct s + length bs
           \<and> layers (model s') = layers (model s)
           \<and> (bs \<noteq> [] \<longrightarrow> metrics s' = Some (last ds))
           \<and> wandb_calls (world s')
                = wandb_calls (world s) @ map (\<lambda>d. Log d True) (take (nat (n - 1 - int step)) ds)"
  using assms
proof (induction bs arbitrary: step s)
  case Nil
  then show ?case by simp
next
  case (Cons b bs)
  have acc0: "\<not> batch_norm_refuses (layers (model s)) (length (fst b) # image_shape)"
    using Cons.prems by simp
  obtain s1 d where d: "train_step E lf cfg n epoch step b s = Inr s1"
      "train_record d epoch (step_ct s)" "metrics s1 = Some d"
      "step_ct s1 = step_ct s + 1" "layers (model s1) = layers (model s)"
      "wandb_calls (world s1) = wandb_calls (world s) @ (if int step + 1 < n then [Log d True] else [])"
    using train_step_effect[OF acc0, where epoch = epoch and E = E and lf = lf and cfg = cfg
        and n = n and step = step] by blast
  have acc: "\<forall>b\<in>set bs. \<not> batch_norm_refuses (layers (model s1)) (length (fst b) # image_shape)"
    using Cons.prems d(5) by simp
  obtain s' ds where ds: "train_loop E lf cfg n epoch (Suc step) bs s1 = Inr s'"
      "length ds = length bs"
      "\<forall>k<length bs. train_record (ds ! k) epoch (step_ct s1 + k)"
      "step_ct s' = step_ct s1 + length bs"
      "layers (model s') = layers (model s1)"
      "bs \<noteq> [] \<longrightarrow> metrics s' = Some (last ds)"
      "wandb_calls (world s') = wandb_calls (world s1)
         @ map (\<lambda>d. Log d True) (take (nat (n - 1 - int (Suc step))) ds)"
    using Cons.IH[OF acc, where step = "Suc step"] by blast
  have L: "train_loop E lf cfg n epoch step (b # bs) s = Inr s'"
    using d(1) ds(1) by simp
  have 1: "length (d # ds) = length (b # bs)" using ds(2) by simp
  have 2: "\<forall>k<length (b # bs). train_record ((d # ds) ! k) epoch (step_ct s + k)"
  proof (intro allI impI)
    fix k assume k: "k < length (b # bs)"
    show "train_record ((d # ds) ! k) epoch (step_ct s + k)"
    proof (cases k)
      case 0
      then show ?thesis using d(2) by simp
    next
      case (Suc j)
      then have "j < length bs" using k by simp
      then have "train_record (ds ! j) epoch (step_ct s1 + j)" using ds(3) by blast
      then show ?thesis using Suc d(4) by simp
    qed
  qed
  have 3: "step_ct s' = step_ct s + length (b # bs)" using ds(4) d(4) by simp
  have 4: "metrics s' = Some (last (d # ds))"
  proof (cases "bs = []")
    case True
    then show ?thesis using d(3) ds(1,2) by simp
  next
    case False
    then have "ds \<noteq> []" using ds(2) by auto
    then show ?thesis using False ds(6) by simp
  qed
  have 5: "wandb_calls (world s')
             = wandb_calls (world s) @ map (\<lambda>d. Log d True) (take (nat (n - 1 - int step)) (d # ds))"
  proof (cases "int step + 1 < n")
    case True
    then have "nat (n - 1 - int step) = Suc (nat (n - 1 - int (Suc step)))" by simp
    then show ?thesis using ds(7) d(6) True by simp
  next
    case False
    then have "nat (n - 1 - int step) = 0" "nat (n - 1 - int (Suc step)) = 0" by simp_all
    then show ?thesis using ds(7) d(6) False by simp
  qed
  have 6: "layers (model s') = layers (model s)" using ds(5) d(5) by simp
  show ?case
    using L 1 2 3 4 5 6 by blast
qed

lemma train_loop_refused:
  assumes "training (model s)"
    and "\<exists>b\<in>set bs. batch_norm_refuses (layers (model s)) (length (fst b) # image_shape)"
  shows "train_loop E lf cfg n epoch step bs s = Inl ValueError"
  using assms
proof (induction bs arbitrary: step s)
  case Nil
  then show ?case by simp
next
  case (Cons b bs)
  show ?case
  proof (cases "batch_norm_refuses (layers (model s)) (length (fst b) # image_shape)")
    case True
    then show ?thesis using Cons.prems(1) by (simp add: train_step_refused)
  next
    case False
    obtain images labels where b: "b = (images, labels)" by (cases b)
    let ?s1 = "train_step E lf cfg n epoch step b s"
    obtain s1 where s1: "?s1 = Inr s1" "layers (model s1) = layers (model s)"
      using train_step_effect[OF False, where epoch = epoch and E = E and lf = lf and cfg = cfg
        and n = n and step = step] by blast
    have "training (model s1)"
      using s1(1) False Cons.prems(1)
      by (auto simp add: b train_step_def call_model_def Let_def split: prod.splits)
    moreover have "\<exists>b\<in>set bs. batch_norm_refuses (layers (model s1)) (length (fst b) # image_shape)"
      using Cons.prems(2) False s1(2) by auto
    ultimately have "train_loop E lf cfg n epoch (Suc step) bs s1 = Inl ValueError"
      by (rule Cons.IH)
    then show ?thesis using s1(1) by simp
  qed
qed

lemma dict_merge_records:
  assumes "train_record d epoch sc" and "val_record vm"
  shows "dict_merge d vm = d @ vm"
  using assms by (auto simp: train_record_def val_record_def dict_merge_def)

text \<open>
  An epoch over batches that the network accepts: the calls to the logger, the step
  counter, and the model, which the epoch leaves in evaluation mode.
\<close>

lemma run_epoch_effect:
  assumes tb: "0 < batch_size train_dl" and tne: "dataset train_dl \<noteq> []"
    and ts: "shuffle train_dl \<Longrightarrow> sampler_ok E"
    and n: "n = \<lceil>real (length (dataset train_dl)) / real (batch_size train_dl)\<rceil>"
    and vb: "0 < batch_size valid_dl" and vne: "dataset valid_dl \<noteq> []"
    and vs: "\<not> shuffle valid_dl"
    and acc: "\<And>w. \<forall>b\<in>set (fst (iter_loader E train_dl w)).
                \<not> batch_norm_refuses (layers (model s)) (length (fst b) # image_shape)"
  shows "\<exists>s' tr. run_epoch E lf cfg train_dl valid_dl n epoch s = Inr s'
           \<and> step_ct s' = step_ct s + nat n
           \<and> layers (model s') = layers (model s)
           \<and> \<not> training (model s')
           \<and> epoch_trace (nat n) epoch (step_ct s)
                (if int epoch = epochs cfg - 1
                 then [table_call E (model s') (first_batch valid_dl)] else []) tr
           \<and> wandb_calls (world s') = wandb_calls (world s) @ tr"
proof -
  let ?final = "int epoch = epochs cfg - 1"
  let ?s1 = "s\<lparr>model := (model s)\<lparr>training := True\<rparr>\<rparr>"
  obtain bs w where it: "iter_loader E train_dl (world s) = (bs, w)"
    by (cases "iter_loader E train_dl (world s)")
  have bs: "bs = fst (iter_loader E train_dl (world s))" using it by simp
  have len: "int (length bs) = n"
    unfolding bs n using tb ts by (rule iter_loader_length)
  have "0 < real (length (dataset train_dl)) / real (batch_size train_dl)"
    using tb tne by simp
  then have npos: "0 < n" unfolding n by (simp only: zero_less_ceiling)
  have lenbs: "length bs = nat n" using len by simp
  have bsne: "bs \<noteq> []" using lenbs npos by auto
  have w: "wandb_calls w = wandb_calls (world s)"
    using iter_loader_world[of E train_dl "world s"] it by simp
  have acc1: "\<forall>b\<in>set bs. \<not> batch_norm_refuses (layers (model (?s1\<lparr>world := w\<rparr>)))
                              (length (fst b) # image_shape)"
    using acc[of "world s"] bs by simp
  obtain s2 ds where ds:
      "train_loop E lf cfg n epoch 0 bs (?s1\<lparr>world := w\<rparr>) = Inr s2"
      "length ds = length bs"
      "\<forall>k<length bs. train_record (ds ! k) epoch (step_ct (?s1\<lparr>world := w\<rparr>) + k)"
      "step_ct s2 = step_ct (?s1\<lparr>world := w\<rparr>) + length bs"
      "layers (model s2) = layers (model (?s1\<lparr>world := w\<rparr>))"
      "bs \<noteq> [] \<longrightarrow> metrics s2 = Some (last ds)"
      "wandb_calls (world s2) = wandb_calls (world (?s1\<lparr>world := w\<rparr>))
         @ map (\<lambda>d. Log d True) (take (nat (n - 1 - int 0)) ds)"
    using train_loop_effect[OF acc1, where epoch = epoch and E = E and lf = lf and cfg = cfg
        and n = n and step = 0] by blast
  have dsne: "ds \<noteq> []" using ds(2) bsne by auto
  have "nat (n - 1 - int 0) = nat n - 1" using npos by simp
  then have tk: "take (nat (n - 1 - int 0)) ds = butlast ds"
    using ds(2) lenbs by (simp add: butlast_conv_take)
  have last_rec: "train_record (last ds) epoch (step_ct s + (nat n - 1))"
  proof -
    have "nat n - 1 < length bs" using lenbs npos by simp
    then have "train_record (ds ! (nat n - 1)) epoch (step_ct (?s1\<lparr>world := w\<rparr>) + (nat n - 1))"
      using ds(3) by blast
    moreover have "last ds = ds ! (nat n - 1)"
      using dsne ds(2) lenbs by (simp add: last_conv_nth)
    ultimately show ?thesis by simp
  qed
  let ?V = "validate_model E (model s2) valid_dl lf ?final 0 (world s2)"
  let ?vbs = "fst (iter_loader E valid_dl (world s2))"
  let ?m = "(model s2)\<lparr>training := False\<rparr>"
  obtain r m' w' where V: "?V = (r, m', w')" by (cases ?V)
  obtain vl acc where r: "r = Inr (vl, acc)"
    using vne V validate_model_result[of E "model s2" valid_dl lf ?final 0 "world s2"]
    by (simp add: Let_def)
  let ?vm = "[(''val/val_loss'', FloatV vl), (''val/val_accuracy'', FloatV acc)]"
  have vm: "val_record ?vm" by (simp add: val_record_def)
  have first: "?vbs \<noteq> []" "?vbs ! 0 = first_batch valid_dl"
    using iter_loader_first[OF vb vs vne, of E "world s2"] by simp_all
  let ?tbl = "if ?final then [table_call E ?m (first_batch valid_dl)] else []"
  have m': "m' = ?m"
    using V validate_model_state[of E "model s2" valid_dl lf ?final 0 "world s2"] by simp
  have vw: "wandb_calls w' = wandb_calls (world s2) @ ?tbl"
    using first V validate_model_state[of E "model s2" valid_dl lf ?final 0 "world s2"]
    by simp
  let ?s' = "s2\<lparr>model := m', world := wandb_log (dict_merge (last ds) ?vm) True w'\<rparr>"
  have met: "metrics s2 = Some (last ds)" using ds(6) bsne by simp
  have res: "run_epoch E lf cfg train_dl valid_dl n epoch s = Inr ?s'"
    by (simp add: run_epoch_def it Let_def ds(1) V r met)
  let ?tr = "map (\<lambda>d. Log d True) (butlast ds) @ ?tbl @ [Log (last ds @ ?vm) True]"
  have calls: "wandb_calls (world ?s') = wandb_calls (world s) @ ?tr"
    using vw ds(7) w tk dict_merge_records[OF last_rec vm]
    by (simp add: wandb_log_def)
  have recs: "\<forall>k<nat n. train_record (ds ! k) epoch (step_ct s + k)"
    using ds(3) lenbs by simp
  have tbl: "(if ?final then [table_call E (model ?s') (first_batch valid_dl)] else []) = ?tbl"
    using m' by simp
  have tr: "epoch_trace (nat n) epoch (step_ct s)
              (if ?final then [table_call E (model ?s') (first_batch valid_dl)] else []) ?tr"
    unfolding epoch_trace_def tbl
    apply (rule exI[of _ ds], rule exI[of _ ?vm])
    using ds(2) lenbs recs vm by simp
  have st: "step_ct ?s' = step_ct s + nat n" using ds(4) lenbs by simp
  have ly: "layers (model ?s') = layers (model s)" using ds(5) m' by simp
  have ev: "\<not> training (model ?s')" using m' by simp
  show ?thesis using res st ly ev tr calls by blast
qed

text \<open>An epoch whose training data leave a batch that the network refuses raises.\<close>

lemma run_epoch_refused:
  assumes "\<exists>b\<in>set (fst (iter_loader E train_dl (world s))).
              batch_norm_refuses (layers (model s)) (length (fst b) # image_shape)"
  shows "run_epoch E lf cfg train_dl valid_dl n epoch s = Inl ValueError"
proof -
  let ?s1 = "s\<lparr>model := (model s)\<lparr>training := True\<rparr>\<rparr>"
  obtain bs w where it: "iter_loader E train_dl (world s) = (bs, w)"
    by (cases "iter_loader E train_dl (world s)")
  have "training (model (?s1\<lparr>world := w\<rparr>))" by simp
  moreover have "\<exists>b\<in>set bs. batch_norm_refuses (layers (model (?s1\<lparr>world := w\<rparr>)))
                              (length (fst b) # image_shape)"
    using assms it by simp
  ultimately have "train_loop E lf cfg n epoch 0 bs (?s1\<lparr>world := w\<rparr>) = Inl ValueError"
    by (rule train_loop_refused)
  then show ?thesis by (simp add: run_epoch_def it Let_def)
qed

lemma epochs_loop_effect:
  assumes tb: "0 < batch_size train_dl" and tne: "dataset train_dl \<noteq> []"
    and ts: "shuffle train_dl \<Longrightarrow> sampler_ok E"
    and n: "n = \<lceil>real (length (dataset train_dl)) / real (batch_size train_dl)\<rceil>"
    and vb: "0 < batch_size valid_dl" and vne: "dataset valid_dl \<noteq> []"
    and vs: "\<not> shuffle valid_dl"
    and acc: "\<And>w. \<forall>b\<in>set (fst (iter_loader E train_dl w)).
                \<not> batch_norm_refuses (layers (model s)) (length (fst b) # image_shape)"
  shows "\<exists>s' trs ms. epochs_loop E lf cfg train_dl valid_dl n es s = Inr s'
           \<and> length trs = length es \<and> length ms = length es
           \<and> (\<forall>i<length es. epoch_trace (nat n) (es ! i) (step_ct s + i * nat n)
                  (if int (es ! i) = epochs cfg - 1
                   then [table_call E (ms ! i) (first_batch valid_dl)] else []) (trs ! i))
           \<and> (es \<noteq> [] \<longrightarrow> last ms = model s' \<and> \<not> training (model s'))
           \<and> layers (model s') = layers (model s)
           \<and> wandb_calls (world s') = wandb_calls (world s) @ concat trs"
  using acc
proof (induction es arbitrary: s)
  case Nil
  show ?case by simp
next
  case (Cons e es)
  obtain s1 tr where e: "run_epoch E lf cfg train_dl valid_dl n e s = Inr s1"
      "step_ct s1 = step_ct s + nat n"
      "layers (model s1) = layers (model s)"
      "\<not> training (model s1)"
      "epoch_trace (nat n) e (step_ct s)
         (if int e = epochs cfg - 1 then [table_call E (model s1) (first_batch valid_dl)] else []) tr"
      "wandb_calls (world s1) = wandb_calls (world s) @ tr"
    using run_epoch_effect[OF tb tne ts n vb vne vs Cons.prems, where lf = lf and cfg = cfg
        and epoch = e]
    by blast
  have acc1: "\<And>w. \<forall>b\<in>set (fst (iter_loader E train_dl w)).
                \<not> batch_norm_refuses (layers (model s1)) (length (fst b) # image_shape)"
    using Cons.prems e(3) by simp
  obtain s' trs ms where es: "epochs_loop E lf cfg train_dl valid_dl n es s1 = Inr s'"
      "length trs = length es" "length ms = length es"
      "\<forall>i<length es. epoch_trace (nat n) (es ! i) (step_ct s1 + i * nat n)
                  (if int (es ! i) = epochs cfg - 1
                   then [table_call E (ms ! i) (first_batch valid_dl)] else []) (trs ! i)"
      "es \<noteq> [] \<longrightarrow> last ms = model s' \<and> \<not> training (model s')"
      "layers (model s') = layers (model s1)"
      "wandb_calls (world s') = wandb_calls (world s1) @ concat trs"
    using Cons.IH[OF acc1] by blast
  have 1: "epochs_loop E lf cfg train_dl valid_dl n (e # es) s = Inr s'"
    using e(1) es(1) by simp
  have 2: "length (tr # trs) = length (e # es)" "length (model s1 # ms) = length (e # es)"
    using es(2,3) by simp_all
  have 3: "\<forall>i<length (e # es). epoch_trace (nat n) ((e # es) ! i) (step_ct s + i * nat n)
                  (if int ((e # es) ! i) = epochs cfg - 1
                   then [table_call E ((model s1 # ms) ! i) (first_batch valid_dl)] else [])
                  ((tr # trs) ! i)"
  proof (intro allI impI)
    fix i assume i: "i < length (e # es)"
    show "epoch_trace (nat n) ((e # es) ! i) (step_ct s + i * nat n)
            (if int ((e # es) ! i) = epochs cfg - 1
             then [table_call E ((model s1 # ms) ! i) (first_batch valid_dl)] else [])
            ((tr # trs) ! i)"
    proof (cases i)
      case 0
      then show ?thesis using e(5) by (cases "int e = epochs cfg - 1") simp_all
    next
      case (Suc j)
      then have "j < length es" using i by simp
      then have "epoch_trace (nat n) (es ! j) (step_ct s1 + j * nat n)
                  (if int (es ! j) = epochs cfg - 1
                   then [table_call E (ms ! j) (first_batch valid_dl)] else []) (trs ! j)"
        using es(4) by blast
      then show ?thesis
        using Suc e(2) by (cases "int (es ! j) = epochs cfg - 1") (simp_all add: add.assoc)
    qed
  qed
  have 4: "wandb_calls (world s') = wandb_calls (world s) @ concat (tr # trs)"
    using es(7) e(6) by simp
  have 5: "last (model s1 # ms) = model s' \<and> \<not> training (model s')"
  proof (cases "es = []")
    case True
    then have "s' = s1" "ms = []" using es(1,3) by simp_all
    then show ?thesis using e(4) by simp
  next
    case False
    then have "ms \<noteq> []" using es(3) by auto
    then show ?thesis using False es(5) by simp
  qed
  have 6: "layers (model s') = layers (model s)" using es(6) e(3) by simp
  show ?case
    using 1 2 3 4 5 6
    by (intro exI[of _ s'] exI[of _ "tr # trs"] exI[of _ "model s1 # ms"]) simp
qed

lemma make_loaders_result:
  assumes "0 < cfg_batch_size cfg" and "MNIST True \<noteq> []"
  shows "make_loaders MNIST cfg =
     Inr (\<lparr>dataset = map (\<lambda>j. MNIST True ! (j * 5)) [0..<nat \<lceil>real (length (MNIST True)) / 5\<rceil>],
           batch_size = nat (cfg_batch_size cfg), shuffle = True\<rparr>,
          \<lparr>dataset = map (\<lambda>j. MNIST False ! (j * 5)) [0..<nat \<lceil>real (length (MNIST False)) / 5\<rceil>],
           batch_size = nat (2 * cfg_batch_size cfg), shuffle = False\<rparr>,
          \<lceil>real (nat \<lceil>real (length (MNIST True)) / 5\<rceil>) / real_of_int (cfg_batch_size cfg)\<rceil>)"
  using assms by (simp add: make_loaders_def get_dataloader_default)

text \<open>
  A trial over data that are not empty and leave no training batch of a single example:
  it returns, its network is the one of \<open>get_model\<close> in evaluation mode, and its calls
  to the logger are the initialization, the calls of the five epochs, the summary and the
  end of the session. The table of the final epoch is the one of the model as the trial
  leaves it.
\<close>

lemma trial_effect:
  assumes "trainable MNIST" and "MNIST False \<noteq> []" and "sampler_ok E"
  shows "\<exists>train_dl valid_dl n s' trs.
           make_loaders MNIST (fst (make_config E w)) = Inr (train_dl, valid_dl, n)
           \<and> 0 < n \<and> batch_size valid_dl = 256 \<and> \<not> shuffle valid_dl \<and> dataset valid_dl \<noteq> []
           \<and> trial E MNIST metrics0 w = Inr s'
           \<and> layers (model s') = [Flatten, Linear 784 256, BatchNorm1d 256, ReLU,
                                  Dropout (dropout (fst (make_config E w))), Linear 256 10]
           \<and> \<not> training (model s')
           \<and> length trs = 5
           \<and> (\<forall>e<5. epoch_trace (nat n) e (e * nat n)
                  (if e = 4 then [table_call E (model s') (first_batch valid_dl)] else [])
                  (trs ! e))
           \<and> wandb_calls (world s') =
                wandb_calls w @ [Init ''mnist-classification'' (fst (make_config E w))]
                  @ concat trs @ [Summary ''test_accuracy'' (8 / 10), Finish]"
proof -
  have tne0: "MNIST True \<noteq> []" and tmod: "train_size MNIST mod 128 \<noteq> 1"
    using assms(1) by (simp_all add: trainable_def)
  obtain cfg w1 where mc: "make_config E w = (cfg, w1)" by (cases "make_config E w")
  have cfg: "epochs cfg = 5" "cfg_batch_size cfg = 128"
    "dropout cfg = fst (random_uniform E (1 / 100) (80 / 100) w)"
    using make_config_fields[of E w] mc by simp_all
  have w1: "wandb_calls w1 = wandb_calls w"
    using mc by (simp add: make_config_def random_uniform_def random_random_def split: prod.splits)
      auto
  let ?train = "\<lparr>dataset = map (\<lambda>j. MNIST True ! (j * 5)) [0..<nat \<lceil>real (length (MNIST True)) / 5\<rceil>],
                  batch_size = nat (cfg_batch_size cfg), shuffle = True\<rparr>"
  let ?valid = "\<lparr>dataset = map (\<lambda>j. MNIST False ! (j * 5)) [0..<nat \<lceil>real (length (MNIST False)) / 5\<rceil>],
                  batch_size = nat (2 * cfg_batch_size cfg), shuffle = False\<rparr>"
  let ?n = "\<lceil>real (nat \<lceil>real (length (MNIST True)) / 5\<rceil>) / real_of_int (cfg_batch_size cfg)\<rceil>"
  have ml: "make_loaders MNIST cfg = Inr (?train, ?valid, ?n)"
    using cfg(2) tne0 by (simp add: make_loaders_result)
  have tb: "0 < batch_size ?train" using cfg(2) by simp
  have tne: "dataset ?train \<noteq> []" using subsample_nonempty[OF tne0] by simp
  have ts: "shuffle ?train \<Longrightarrow> sampler_ok E" using assms(3) by simp
  have n: "?n = \<lceil>real (length (dataset ?train)) / real (batch_size ?train)\<rceil>"
    using cfg(2) by simp
  have vb: "0 < batch_size ?valid" using cfg(2) by simp
  have vne: "dataset ?valid \<noteq> []" using subsample_nonempty[OF assms(2)] by simp
  have vs: "\<not> shuffle ?valid" by simp
  have "0 < real (length (dataset ?train)) / real (batch_size ?train)"
    using tb tne by simp
  then have npos: "0 < ?n" unfolding n by (simp only: zero_less_ceiling)
  have "1 / 100 \<le> dropout cfg \<and> dropout cfg < 80 / 100"
    using random_uniform_range[of "1 / 100" "80 / 100" E w] cfg(3) by simp
  then have p: "0 \<le> dropout cfg" "dropout cfg \<le> 1" by simp_all
  let ?ls = "[Flatten, Linear 784 256, BatchNorm1d 256, ReLU, Dropout (dropout cfg), Linear 256 10]"
  let ?m = "\<lparr>layers = ?ls, params = init_params E ?ls, buffers = init_buffers E ?ls, training = True\<rparr>"
  have gm: "get_model E (dropout cfg) = Inr ?m" using p by (rule get_model_eq)
  let ?w2 = "wandb_init ''mnist-classification'' cfg w1"
  let ?s = "\<lparr>model = ?m, optimizer = adam_init E (params ?m), example_ct = 0, step_ct = 0,
             metrics = metrics0, world = ?w2\<rparr>"
  have acc: "\<forall>b\<in>set (fst (iter_loader E ?train w')).
                \<not> batch_norm_refuses (layers (model ?s)) (length (fst b) # image_shape)" for w'
  proof
    fix b assume "b \<in> set (fst (iter_loader E ?train w'))"
    then have "length (fst b) = batch_size ?train
               \<or> length (fst b) = length (dataset ?train) mod batch_size ?train"
      using iter_loader_batch_sizes[OF tb ts] by blast
    then have "length (fst b) \<noteq> 1"
      using cfg(2) tmod by (auto simp add: train_size_def)
    then show "\<not> batch_norm_refuses (layers (model ?s)) (length (fst b) # image_shape)"
      by (simp add: image_shape_def)
  qed
  obtain s' trs ms where el:
      "epochs_loop E (CrossEntropyLoss E) cfg ?train ?valid ?n [0..<5] ?s = Inr s'"
      "length trs = length [0..<5::nat]" "length ms = length [0..<5::nat]"
      "\<forall>i<length [0..<5::nat]. epoch_trace (nat ?n) ([0..<5] ! i) (step_ct ?s + i * nat ?n)
                  (if int ([0..<5] ! i) = epochs cfg - 1
                   then [table_call E (ms ! i) (first_batch ?valid)] else []) (trs ! i)"
      "[0..<5::nat] \<noteq> [] \<longrightarrow> last ms = model s' \<and> \<not> training (model s')"
      "layers (model s') = layers (model ?s)"
      "wandb_calls (world s') = wandb_calls (world ?s) @ concat trs"
    using epochs_loop_effect[OF tb tne ts n vb vne vs acc, where lf = "CrossEntropyLoss E"
        and cfg = cfg and es = "[0..<5]"]
    by blast
  have len: "length trs = 5" "length ms = 5" using el(2,3) by simp_all
  have lastm: "ms ! 4 = model s'" and ev: "\<not> training (model s')"
  proof -
    have "ms \<noteq> []" using len(2) by auto
    then have "last ms = ms ! 4" using len(2) by (simp add: last_conv_nth)
    then show "ms ! 4 = model s'" using el(5) by simp
    show "\<not> training (model s')" using el(5) by simp
  qed
  have tr: "\<forall>e<5. epoch_trace (nat ?n) e (e * nat ?n)
              (if e = 4 then [table_call E (model s') (first_batch ?valid)] else []) (trs ! e)"
  proof (intro allI impI)
    fix e :: nat assume e: "e < 5"
    then have "epoch_trace (nat ?n) ([0..<5] ! e) (step_ct ?s + e * nat ?n)
                  (if int ([0..<5] ! e) = epochs cfg - 1
                   then [table_call E (ms ! e) (first_batch ?valid)] else []) (trs ! e)"
      using el(4) by simp
    moreover have "[0..<5] ! e = e" using e by simp
    moreover have "(int e = epochs cfg - 1) = (e = 4)" using cfg(1) by auto
    ultimately have "epoch_trace (nat ?n) e (e * nat ?n)
                  (if e = 4 then [table_call E (ms ! e) (first_batch ?valid)] else []) (trs ! e)"
      by simp
    then show "epoch_trace (nat ?n) e (e * nat ?n)
              (if e = 4 then [table_call E (model s') (first_batch ?valid)] else []) (trs ! e)"
      using lastm by (cases "e = 4") simp_all
  qed
  let ?s'' = "s'\<lparr>world := wandb_finish (wandb_summary_set ''test_accuracy'' (8 / 10) (world s'))\<rparr>"
  have res: "trial E MNIST metrics0 w = Inr ?s''"
    using el(1) cfg(1) by (simp add: trial_def mc ml gm Let_def)
  have calls: "wandb_calls (world ?s'') =
                wandb_calls w @ [Init ''mnist-classification'' cfg]
                  @ concat trs @ [Summary ''test_accuracy'' (8 / 10), Finish]"
    using el(7) w1 by (simp add: wandb_finish_def wandb_summary_set_def wandb_init_def)
  have v256: "batch_size ?valid = 256" using cfg(2) by simp
  have ly: "layers (model ?s'') = ?ls" using el(6) by simp
  have ev': "\<not> training (model ?s'')" using ev by simp
  have ms: "model ?s'' = model s'" by simp
  have tr': "\<forall>e<5. epoch_trace (nat ?n) e (e * nat ?n)
              (if e = 4 then [table_call E (model ?s'') (first_batch ?valid)] else []) (trs ! e)"
    using tr by (simp only: ms)
  show ?thesis
    using ml npos v256 vs vne res ly ev' len(1) tr' calls mc
    by (intro exI[of _ ?train] exI[of _ ?valid] exI[of _ ?n] exI[of _ ?s''] exI[of _ trs]) simp
qed

text \<open>
  A trial whose training data leave a batch of a single example raises in its first
  epoch: batch normalization refuses the batch.
\<close>

lemma chunks_last_length:
  assumes "0 < n" and "xs \<noteq> []"
  shows "\<exists>b\<in>set (chunks n xs). length b = (if length xs mod n = 0 then n else length xs mod n)"
  using assms
proof (induction n xs rule: chunks.induct)
  case (1 n xs)
  have c: "chunks n xs = take n xs # chunks n (drop n xs)"
    using 1(2,3) by (simp add: chunks.simps[of n xs])
  show ?case
  proof (cases "length xs \<le> n")
    case True
    then have "length (take n xs) = (if length xs mod n = 0 then n else length xs mod n)"
      using 1(2,3) by (cases "length xs = n") simp_all
    then show ?thesis unfolding c by (meson list.set_intros(1))
  next
    case False
    then have d: "drop n xs \<noteq> []" by simp
    have m: "length (drop n xs) mod n = length xs mod n"
      using False by (simp add: le_mod_geq)
    obtain b where "b \<in> set (chunks n (drop n xs))"
        "length b = (if length (drop n xs) mod n = 0 then n else length (drop n xs) mod n)"
      using 1(1) 1(2,3) d by blast
    then show ?thesis unfolding c m by (meson list.set_intros(2))
  qed
qed

lemma trial_refused:
  assumes "train_size MNIST mod 128 = 1" and "sampler_ok E"
  shows "trial E MNIST metrics0 w = Inl ValueError"
proof -
  have tne0: "MNIST True \<noteq> []"
    using assms(1) by (auto simp add: train_size_def)
  obtain cfg w1 where mc: "make_config E w = (cfg, w1)" by (cases "make_config E w")
  have cfg: "epochs cfg = 5" "cfg_batch_size cfg = 128"
    "dropout cfg = fst (random_uniform E (1 / 100) (80 / 100) w)"
    using make_config_fields[of E w] mc by simp_all
  let ?train = "\<lparr>dataset = map (\<lambda>j. MNIST True ! (j * 5)) [0..<nat \<lceil>real (length (MNIST True)) / 5\<rceil>],
                  batch_size = nat (cfg_batch_size cfg), shuffle = True\<rparr>"
  let ?valid = "\<lparr>dataset = map (\<lambda>j. MNIST False ! (j * 5)) [0..<nat \<lceil>real (length (MNIST False)) / 5\<rceil>],
                  batch_size = nat (2 * cfg_batch_size cfg), shuffle = False\<rparr>"
  let ?n = "\<lceil>real (nat \<lceil>real (length (MNIST True)) / 5\<rceil>) / real_of_int (cfg_batch_size cfg)\<rceil>"
  have ml: "make_loaders MNIST cfg = Inr (?train, ?valid, ?n)"
    using cfg(2) tne0 by (simp add: make_loaders_result)
  have "1 / 100 \<le> dropout cfg \<and> dropout cfg < 80 / 100"
    using random_uniform_range[of "1 / 100" "80 / 100" E w] cfg(3) by simp
  then have p: "0 \<le> dropout cfg" "dropout cfg \<le> 1" by simp_all
  let ?ls = "[Flatten, Linear 784 256, BatchNorm1d 256, ReLU, Dropout (dropout cfg), Linear 256 10]"
  let ?m = "\<lparr>layers = ?ls, params = init_params E ?ls, buffers = init_buffers E ?ls, training = True\<rparr>"
  have gm: "get_model E (dropout cfg) = Inr ?m" using p by (rule get_model_eq)
  let ?w2 = "wandb_init ''mnist-classification'' cfg w1"
  let ?s = "\<lparr>model = ?m, optimizer = adam_init E (params ?m), example_ct = 0, step_ct = 0,
             metrics = metrics0, world = ?w2\<rparr>"
  let ?ix = "randperm E (torch_rng ?w2) (length (dataset ?train))"
  have "mset ?ix = mset [0..<length (dataset ?train)]"
    using assms(2) by (simp add: sampler_ok_def)
  then have "length ?ix = length [0..<length (dataset ?train)]" by (rule mset_eq_length)
  then have lix: "length ?ix = train_size MNIST" by (simp add: train_size_def)
  then have "?ix \<noteq> []" using assms(1) by auto
  then obtain ib where ib: "ib \<in> set (chunks 128 ?ix)"
      "length ib = (if length ?ix mod 128 = 0 then 128 else length ?ix mod 128)"
    using chunks_last_length[of 128 ?ix] by auto
  have one: "length ib = 1" using ib(2) lix assms(1) by simp
  let ?b = "collate (map (\<lambda>i. dataset ?train ! i) ib)"
  have "?b \<in> set (fst (iter_loader E ?train ?w2))"
    using ib(1) cfg(2) unfolding iter_loader_batches by simp
  moreover have "batch_norm_refuses (layers (model ?s)) (length (fst ?b) # image_shape)"
    using one by (simp add: image_shape_def collate_def)
  ultimately have "\<exists>b\<in>set (fst (iter_loader E ?train (world ?s))).
                     batch_norm_refuses (layers (model ?s)) (length (fst b) # image_shape)"
    by auto
  then have "run_epoch E (CrossEntropyLoss E) cfg ?train ?valid ?n 0 ?s = Inl ValueError"
    by (rule run_epoch_refused)
  then have "epochs_loop E (CrossEntropyLoss E) cfg ?train ?valid ?n [0..<5] ?s = Inl ValueError"
    by (simp add: upt_rec)
  then show ?thesis
    using cfg(1) by (simp add: trial_def mc ml gm Let_def)
qed

text \<open>
  The training split of MNIST, with its 60000 examples, gives a training dataset of
  12000 examples, whose last batch has 96.
\<close>

lemma mnist_trainable:
  assumes "length (MNIST True) = 60000"
  shows "trainable MNIST \<and> train_size MNIST = 12000"
proof -
  have "MNIST True \<noteq> []" using assms by auto
  moreover have "train_size MNIST = 12000" by (simp add: train_size_def assms)
  ultimately show ?thesis by (simp add: trainable_def)
qed

lemma toy_trainable: "trainable toy_MNIST"
proof -
  have "train_size toy_MNIST = 200" by (simp add: train_size_def toy_MNIST_def)
  then show ?thesis by (simp add: trainable_def toy_MNIST_def)
qed

text \<open>
  The small instance: its validation loader has the single example \<open>(4, 0)\<close>, an epoch
  has two steps, and the network of \<open>get_model\<close> in evaluation mode gives the image 4
  ten logits equal to 4, so the predicted label 0 and ten scores of one tenth.
\<close>

lemma toy_valid:
  assumes "make_loaders toy_MNIST (fst (make_config toy_externals initial_world))
             = Inr (train_dl, valid_dl, n)"
  shows "dataset valid_dl = [(4, 0)]" and "n = 2"
proof -
  have "toy_MNIST True \<noteq> []" by (simp add: toy_MNIST_def)
  then have "make_loaders toy_MNIST (fst (make_config toy_externals initial_world)) =
     Inr (\<lparr>dataset = map (\<lambda>j. toy_MNIST True ! (j * 5)) [0..<nat \<lceil>real (length (toy_MNIST True)) / 5\<rceil>],
           batch_size = nat (cfg_batch_size (fst (make_config toy_externals initial_world))), shuffle = True\<rparr>,
          \<lparr>dataset = map (\<lambda>j. toy_MNIST False ! (j * 5)) [0..<nat \<lceil>real (length (toy_MNIST False)) / 5\<rceil>],
           batch_size = nat (2 * cfg_batch_size (fst (make_config toy_externals initial_world))), shuffle = False\<rparr>,
          \<lceil>real (nat \<lceil>real (length (toy_MNIST True)) / 5\<rceil>) / real_of_int (cfg_batch_size (fst (make_config toy_externals initial_world)))\<rceil>)"
    by (intro make_loaders_result) (simp_all add: make_config_fields)
  then have v: "valid_dl = \<lparr>dataset = map (\<lambda>j. toy_MNIST False ! (j * 5)) [0..<nat \<lceil>real (length (toy_MNIST False)) / 5\<rceil>],
           batch_size = nat (2 * cfg_batch_size (fst (make_config toy_externals initial_world))), shuffle = False\<rparr>"
    and n: "n = \<lceil>real (nat \<lceil>real (length (toy_MNIST True)) / 5\<rceil>) / real_of_int (cfg_batch_size (fst (make_config toy_externals initial_world)))\<rceil>"
    using assms by simp_all
  have "\<lceil>(3::real) / 5\<rceil> = 1" by (simp add: ceiling_eq_iff)
  then show "dataset valid_dl = [(4, 0)]"
    unfolding v by (simp add: toy_MNIST_def)
  have "\<lceil>(200::real) / 128\<rceil> = 2" by (simp add: ceiling_eq_iff)
  then show "n = 2"
    unfolding n by (simp add: toy_MNIST_def make_config_fields)
qed

lemma replicate_ten: "replicate 10 x = [x, x, x, x, x, x, x, x, x, x]"
  by (simp add: eval_nat_numeral)

lemma toy_logits:
  assumes "layers m = [Flatten, Linear 784 256, BatchNorm1d 256, ReLU, Dropout p, Linear 256 10]"
    and "\<not> training m"
  shows "forward toy_externals m [4] = [replicate 10 4]"
    and "map argmax (forward toy_externals m [4]) = [0]"
    and "map (softmax toy_externals) (forward toy_externals m [4]) = [replicate 10 (1 / 10)]"
proof -
  show f: "forward toy_externals m [4] = [replicate 10 4]"
    using assms by (simp add: toy_externals_def toy_forward_def image_shape_def)
  show "map argmax (forward toy_externals m [4]) = [0]"
    unfolding f replicate_ten by (simp add: argmax_def)
  show "map (softmax toy_externals) (forward toy_externals m [4]) = [replicate 10 (1 / 10)]"
    unfolding f replicate_ten by (simp add: toy_externals_def)
qed

text \<open>Counting the calls of an epoch.\<close>

lemma train_record_keys:
  assumes "train_record d epoch sc"
  shows "\<not> logs_key ''val/val_loss'' (Log d c)" "\<not> logs_key ''predictions_table'' (Log d c)"
    "logs_step k (Log d c) \<longleftrightarrow> k = sc"
  using assms by (auto simp: train_record_def logs_key_def logs_step_def)

lemma merged_record_keys:
  assumes "train_record d epoch sc" and "val_record vm"
  shows "logs_key ''val/val_loss'' (Log (d @ vm) c)"
    "\<not> logs_key ''predictions_table'' (Log (d @ vm) c)"
    "logs_step k (Log (d @ vm) c) \<longleftrightarrow> k = sc"
  using assms by (auto simp: train_record_def val_record_def logs_key_def logs_step_def)

lemma table_call_keys:
  "\<not> logs_key ''val/val_loss'' (table_call E m b)"
  "logs_key ''predictions_table'' (table_call E m b)"
  "\<not> logs_step k (table_call E m b)"
  "\<not> is_summary (table_call E m b)"
  "table_call E m b \<noteq> Finish"
  by (auto simp: table_call_def logs_key_def logs_step_def is_summary_def)

lemma filter_once:
  assumes "k < length xs" and "\<forall>j<length xs. Q (xs ! j) \<longleftrightarrow> j = k"
  shows "length (filter Q xs) = 1"
proof -
  have "{i. i < length xs \<and> Q (xs ! i)} = {k}" using assms by auto
  then show ?thesis by (simp add: length_filter_conv_card)
qed

lemma step_records_none:
  assumes "\<forall>d\<in>set ds. \<exists>sc. train_record d epoch sc"
  shows "filter (logs_key ''val/val_loss'') (map (\<lambda>d. Log d True) ds) = []"
    "filter (logs_key ''predictions_table'') (map (\<lambda>d. Log d True) ds) = []"
    "filter is_summary (map (\<lambda>d. Log d True) ds) = []"
    "Finish \<notin> set (map (\<lambda>d. Log d True) ds)"
  using assms by (auto simp: filter_empty_conv train_record_keys is_summary_def)

lemma epoch_trace_parts:
  assumes "epoch_trace n epoch sc tbl tr" and "0 < n"
  obtains ds vm where "length ds = n" "\<forall>k<n. train_record (ds ! k) epoch (sc + k)"
    "val_record vm" "train_record (last ds) epoch (sc + n - 1)"
    "\<forall>d\<in>set (butlast ds). \<exists>sc. train_record d epoch sc"
    "tr = map (\<lambda>d. Log d True) (butlast ds) @ tbl @ [Log (last ds @ vm) True]"
proof -
  obtain ds vm where p: "length ds = n" "\<forall>k<n. train_record (ds ! k) epoch (sc + k)"
    "val_record vm"
    "tr = map (\<lambda>d. Log d True) (butlast ds) @ tbl @ [Log (last ds @ vm) True]"
    using assms(1) unfolding epoch_trace_def by blast
  have ne: "ds \<noteq> []" using p(1) assms(2) by auto
  have "last ds = ds ! (n - 1)" using ne p(1) by (simp add: last_conv_nth)
  moreover have "n - 1 < n" using assms(2) by simp
  then have "train_record (ds ! (n - 1)) epoch (sc + (n - 1))"
    using p(2) by blast
  moreover have "sc + (n - 1) = sc + n - 1" using assms(2) by simp
  ultimately have l: "train_record (last ds) epoch (sc + n - 1)" by simp
  have a: "\<forall>d\<in>set ds. \<exists>sc. train_record d epoch sc"
  proof
    fix d assume "d \<in> set ds"
    then obtain i where "i < length ds" "d = ds ! i" by (auto simp: in_set_conv_nth)
    then have "train_record d epoch (sc + i)" using p(1,2) by simp
    then show "\<exists>sc. train_record d epoch sc" ..
  qed
  have "\<forall>d\<in>set (butlast ds). \<exists>sc. train_record d epoch sc"
    using a by (meson in_set_butlastD)
  then show ?thesis using p l that by blast
qed

lemma epoch_trace_counts:
  assumes "epoch_trace n epoch sc (if final then [table_call E m b0] else []) tr" and "0 < n"
  shows "length (filter (logs_key ''val/val_loss'') tr) = 1"
    and "length (filter (logs_key ''predictions_table'') tr) = (if final then 1 else 0)"
    and "filter is_summary tr = []"
    and "Finish \<notin> set tr"
proof -
  obtain ds vm where p: "val_record vm" "train_record (last ds) epoch (sc + n - 1)"
    "\<forall>d\<in>set (butlast ds). \<exists>sc. train_record d epoch sc"
    "tr = map (\<lambda>d. Log d True) (butlast ds) @ (if final then [table_call E m b0] else [])
            @ [Log (last ds @ vm) True]"
    using assms by (rule epoch_trace_parts)
  note none = step_records_none[OF p(3)]
  note merged = merged_record_keys[OF p(2) p(1)]
  show "length (filter (logs_key ''val/val_loss'') tr) = 1"
    by (simp add: p(4) none merged table_call_keys)
  show "length (filter (logs_key ''predictions_table'') tr) = (if final then 1 else 0)"
    by (simp add: p(4) none merged table_call_keys)
  show "filter is_summary tr = []"
    by (simp add: p(4) none is_summary_def table_call_def)
  show "Finish \<notin> set tr"
    using none(4) by (simp add: p(4) table_call_def)
qed

lemma epoch_trace_step_once:
  assumes "epoch_trace n epoch sc (if final then [table_call E m b0] else []) tr" and "k < n"
  shows "length (filter (logs_step (sc + k)) tr) = 1"
proof -
  let ?tbl = "if final then [table_call E m b0] else []"
  have n: "0 < n" using assms(2) by simp
  obtain ds vm where p: "length ds = n" "\<forall>k<n. train_record (ds ! k) epoch (sc + k)"
    "val_record vm" "train_record (last ds) epoch (sc + n - 1)"
    "tr = map (\<lambda>d. Log d True) (butlast ds) @ ?tbl @ [Log (last ds @ vm) True]"
    using assms(1) n by (rule epoch_trace_parts)
  let ?Q = "\<lambda>d. logs_step (sc + k) (Log d True)"
  have ne: "ds \<noteq> []" using p(1) n by auto
  have "\<forall>j<length ds. ?Q (ds ! j) \<longleftrightarrow> j = k"
    using p(1,2) by (auto simp: train_record_keys(3))
  then have one: "length (filter ?Q ds) = 1"
    using assms(2) p(1) by (intro filter_once[of k]) simp_all
  have "length (filter ?Q (butlast ds @ [last ds]))
          = length (filter ?Q (butlast ds)) + (if ?Q (last ds) then 1 else 0)"
    by simp
  then have "length (filter ?Q ds) = length (filter ?Q (butlast ds)) + (if ?Q (last ds) then 1 else 0)"
    by (simp only: append_butlast_last_id[OF ne])
  then have A: "length (filter ?Q (butlast ds)) + (if ?Q (last ds) then 1 else 0) = 1"
    using one by linarith
  have B: "length (filter (logs_step (sc + k)) (map (\<lambda>d. Log d True) (butlast ds)))
             = length (filter ?Q (butlast ds))"
    by (simp add: filter_map o_def)
  have C: "logs_step (sc + k) (Log (last ds @ vm) True) \<longleftrightarrow> ?Q (last ds)"
    using merged_record_keys(3)[OF p(4) p(3)] train_record_keys(3)[OF p(4)] by simp
  have D: "filter (logs_step (sc + k)) ?tbl = []"
    by (simp add: table_call_keys)
  have "length (filter (logs_step (sc + k)) tr)
          = length (filter (logs_step (sc + k)) (map (\<lambda>d. Log d True) (butlast ds)))
            + length (filter (logs_step (sc + k)) ?tbl)
            + (if logs_step (sc + k) (Log (last ds @ vm) True) then 1 else 0)"
    unfolding p(5) by simp
  also have "\<dots> = length (filter ?Q (butlast ds)) + (if ?Q (last ds) then 1 else 0)"
    unfolding B C D by simp
  finally show ?thesis using A by simp
qed

lemma concat_count:
  assumes "\<forall>tr\<in>set trs. length (filter P tr) = c"
  shows "length (filter P (concat trs)) = c * length trs"
  using assms by (induction trs) simp_all

lemma concat_none:
  assumes "\<forall>tr\<in>set trs. filter P tr = []"
  shows "filter P (concat trs) = []"
  using assms by (induction trs) simp_all

lemma five_split:
  assumes "length (trs :: 'a list) = 5"
  shows "trs = take 4 trs @ [trs ! 4]"
proof -
  have "take (Suc 4) trs = take 4 trs @ [trs ! 4]"
    using assms by (intro take_Suc_conv_app_nth) simp
  then show ?thesis using assms by simp
qed

section \<open>Properties of a trial\<close>

text \<open>
  The statements about a trial are made for training data that are not empty and leave
  no batch of a single example (\<open>trainable\<close>: on other data the trial raises, see
  \<open>trial_refused\<close>, and the training split of MNIST is such, see \<open>mnist_trainable\<close>), for
  validation data that are not empty, for a sampler that permutes, and for numerics that
  respect the shapes, so that the rows of the predictions table have the ten scores that
  its columns ask for.
\<close>

text \<open>
  Claim C2. In a trial, the calls to the logger are: the initialization; for each of
  the five epochs, one committed call for the record of every step but the last (with
  the keys train/train_loss, train/epoch, train/example_ct, train/step_ct) and then one
  committed call that holds the record of the last step together with val/val_loss and
  val/val_accuracy (preceded, in the final epoch, by the predictions table); the summary;
  the end of the session. Within an epoch each step counter is logged by exactly one
  call.
\<close>

theorem trial_step_records:
  assumes "trainable MNIST" and "MNIST False \<noteq> []" and "sampler_ok E" and "shapes_ok E"
  shows "\<exists>train_dl valid_dl n s' trs.
           make_loaders MNIST (fst (make_config E w)) = Inr (train_dl, valid_dl, n)
           \<and> trial E MNIST metrics0 w = Inr s'
           \<and> wandb_calls (world s') =
                wandb_calls w @ [Init ''mnist-classification'' (fst (make_config E w))]
                  @ concat trs @ [Summary ''test_accuracy'' (8 / 10), Finish]
           \<and> length trs = 5
           \<and> (\<forall>e<5. epoch_trace (nat n) e (e * nat n)
                       (if e = 4 then [table_call E (model s') (first_batch valid_dl)] else [])
                       (trs ! e)
                    \<and> (\<forall>k<nat n. length (filter (logs_step (e * nat n + k)) (trs ! e)) = 1))"
proof -
  obtain train_dl valid_dl n s' trs where t:
      "make_loaders MNIST (fst (make_config E w)) = Inr (train_dl, valid_dl, n)"
      "trial E MNIST metrics0 w = Inr s'" "length trs = 5"
      "\<forall>e<5. epoch_trace (nat n) e (e * nat n)
                (if e = 4 then [table_call E (model s') (first_batch valid_dl)] else [])
                (trs ! e)"
      "wandb_calls (world s') =
         wandb_calls w @ [Init ''mnist-classification'' (fst (make_config E w))]
           @ concat trs @ [Summary ''test_accuracy'' (8 / 10), Finish]"
    using trial_effect[OF assms(1,2,3), of w metrics0] by blast
  have "\<forall>e<5. \<forall>k<nat n. length (filter (logs_step (e * nat n + k)) (trs ! e)) = 1"
    using t(4) epoch_trace_step_once by blast
  then show ?thesis using t by blast
qed

theorem trial_step_records_witness:
  "trainable toy_MNIST \<and> toy_MNIST False \<noteq> [] \<and> sampler_ok toy_externals
   \<and> shapes_ok toy_externals
   \<and> (\<exists>train_dl valid_dl n s' trs.
           make_loaders toy_MNIST (fst (make_config toy_externals initial_world))
             = Inr (train_dl, valid_dl, n)
           \<and> trial toy_externals toy_MNIST None initial_world = Inr s'
           \<and> wandb_calls (world s') =
                wandb_calls initial_world
                  @ [Init ''mnist-classification'' (fst (make_config toy_externals initial_world))]
                  @ concat trs @ [Summary ''test_accuracy'' (8 / 10), Finish]
           \<and> length trs = 5
           \<and> (\<forall>e<5. epoch_trace (nat n) e (e * nat n)
                       (if e = 4 then [table_call toy_externals (model s') (first_batch valid_dl)]
                        else [])
                       (trs ! e)
                    \<and> (\<forall>k<nat n. length (filter (logs_step (e * nat n + k)) (trs ! e)) = 1)))"
proof -
  have h2: "toy_MNIST False \<noteq> []"
    by (simp add: toy_MNIST_def)
  show ?thesis
    using toy_trainable h2 toy_sampler_ok toy_shapes_ok
      trial_step_records[OF toy_trainable h2 toy_sampler_ok toy_shapes_ok,
        where w = initial_world and ?metrics0.0 = None]
    by (intro conjI)
qed

text \<open>
  Claim C8. In a trial (five epochs) exactly five calls log validation metrics and
  exactly one call logs the predictions table. Four validation records come before the
  table, so the table belongs to the final epoch. The table is the one of the first
  validation batch (index 0, the first 256 validation examples) under the model as the
  trial leaves it, in evaluation mode: a row for each image of the batch, with the
  image, the arg-max of its logits, its label and its ten scores. It is logged with
  \<open>commit = False\<close>, and the call right after it is the committed record of the final
  epoch, which the summary and the end of the session follow.
\<close>

theorem trial_validation_records_and_table:
  assumes "trainable MNIST" and "MNIST False \<noteq> []" and "sampler_ok E" and "shapes_ok E"
  shows "\<exists>train_dl valid_dl n s' pre tbl post images labels outputs d vm.
           make_loaders MNIST (fst (make_config E w)) = Inr (train_dl, valid_dl, n)
           \<and> trial E MNIST metrics0 w = Inr s'
           \<and> wandb_calls (world s') = wandb_calls w @ pre @ tbl # post
           \<and> length (filter (logs_key ''val/val_loss'') (pre @ tbl # post)) = 5
           \<and> length (filter (logs_key ''predictions_table'') (pre @ tbl # post)) = 1
           \<and> length (filter (logs_key ''val/val_loss'') pre) = 4
           \<and> (\<forall>w'. fst (iter_loader E valid_dl w') ! 0 = (images, labels))
           \<and> (images, labels) = collate (take 256 (dataset valid_dl))
           \<and> images \<noteq> [] \<and> length labels = length images
           \<and> layers (model s') = [Flatten, Linear 784 256, BatchNorm1d 256, ReLU,
                                  Dropout (dropout (fst (make_config E w))), Linear 256 10]
           \<and> \<not> training (model s')
           \<and> outputs = forward E (model s') images
           \<and> length outputs = length images
           \<and> (\<forall>row\<in>set outputs. length row = 10 \<and> length (softmax E row) = 10)
           \<and> tbl = Log [(''predictions_table'',
                          TableV \<lparr>columns = [''image'', ''pred'', ''target''] @ score_columns,
                                  rows = zip images (zip (map argmax outputs)
                                           (zip labels (map (softmax E) outputs)))\<rparr>)] False
           \<and> length (zip images (zip (map argmax outputs) (zip labels (map (softmax E) outputs))))
                = length images
           \<and> length ([''image'', ''pred'', ''target''] @ score_columns) = 13
           \<and> post = [Log (d @ vm) True, Summary ''test_accuracy'' (8 / 10), Finish]
           \<and> train_record d 4 (5 * nat n - 1) \<and> val_record vm"
proof -
  let ?val = "logs_key ''val/val_loss''"
  let ?tab = "logs_key ''predictions_table''"
  let ?ls = "[Flatten, Linear 784 256, BatchNorm1d 256, ReLU,
              Dropout (dropout (fst (make_config E w))), Linear 256 10]"
  obtain train_dl valid_dl n s' trs where t:
      "make_loaders MNIST (fst (make_config E w)) = Inr (train_dl, valid_dl, n)"
      "0 < n"
      "trial E MNIST metrics0 w = Inr s'" "length trs = 5"
      "\<forall>e<5. epoch_trace (nat n) e (e * nat n)
                (if e = 4 then [table_call E (model s') (first_batch valid_dl)] else [])
                (trs ! e)"
      "wandb_calls (world s') =
         wandb_calls w @ [Init ''mnist-classification'' (fst (make_config E w))]
           @ concat trs @ [Summary ''test_accuracy'' (8 / 10), Finish]"
      and v: "batch_size valid_dl = 256" "\<not> shuffle valid_dl" "dataset valid_dl \<noteq> []"
      and m: "layers (model s') = ?ls" "\<not> training (model s')"
    using trial_effect[OF assms(1,2,3), of w metrics0] by blast
  have n: "0 < nat n" using t(2) by simp
  let ?tbl = "table_call E (model s') (first_batch valid_dl)"
  from t(5)[rule_format, of 4]
  have "epoch_trace (nat n) 4 (4 * nat n) (if True then [?tbl] else []) (trs ! 4)"
    by simp
  then obtain ds vm where p: "val_record vm"
      "train_record (last ds) 4 (4 * nat n + nat n - 1)"
      "\<forall>d\<in>set (butlast ds). \<exists>sc. train_record d 4 sc"
      "trs ! 4 = map (\<lambda>d. Log d True) (butlast ds) @ (if True then [?tbl] else [])
                   @ [Log (last ds @ vm) True]"
    using n by (rule epoch_trace_parts)
  let ?pre = "[Init ''mnist-classification'' (fst (make_config E w))] @ concat (take 4 trs)
                @ map (\<lambda>d. Log d True) (butlast ds)"
  let ?post = "[Log (last ds @ vm) True, Summary ''test_accuracy'' (8 / 10), Finish]"
  have early: "\<forall>tr\<in>set (take 4 trs). length (filter ?val tr) = 1 \<and> filter ?tab tr = []"
  proof
    fix tr assume "tr \<in> set (take 4 trs)"
    then obtain i where i: "i < 4" "tr = trs ! i"
      using t(4) by (auto simp: in_set_conv_nth)
    then have "epoch_trace (nat n) i (i * nat n) (if False then [?tbl] else []) tr"
      using t(5)[rule_format, of i] by simp
    then show "length (filter ?val tr) = 1 \<and> filter ?tab tr = []"
      using epoch_trace_counts(1,2)[of "nat n" i "i * nat n" False E "model s'"
          "first_batch valid_dl" tr] n
      by simp
  qed
  have c4: "length (filter ?val (concat (take 4 trs))) = 4"
    using concat_count[of "take 4 trs" ?val 1] early t(4) by simp
  have t4: "filter ?tab (concat (take 4 trs)) = []"
    using concat_none[of "take 4 trs" ?tab] early by simp
  have split: "concat trs = concat (take 4 trs) @ trs ! 4"
    using five_split[OF t(4)] by (metis concat.simps(1,2) concat_append append_Nil2)
  have calls: "wandb_calls (world s') = wandb_calls w @ ?pre @ ?tbl # ?post"
    using t(6) by (simp add: split p(4))
  note none = step_records_none[OF p(3)]
  note merged = merged_record_keys[OF p(2) p(1)]
  have init: "\<not> ?val (Init a b)" "\<not> ?tab (Init a b)" "\<not> ?val (Summary k v)"
    "\<not> ?tab (Summary k v)" "\<not> ?val Finish" "\<not> ?tab Finish" for a b k v
    by (simp_all add: logs_key_def)
  have pre4: "length (filter ?val ?pre) = 4"
    using c4 by (simp add: none init)
  have v5: "length (filter ?val (?pre @ ?tbl # ?post)) = 5"
    using c4 by (simp add: none init merged table_call_keys)
  have t1: "length (filter ?tab (?pre @ ?tbl # ?post)) = 1"
    using t4 by (simp add: none init merged table_call_keys)
  have "4 * nat n + nat n - 1 = 5 * nat n - 1" by simp
  then have last: "train_record (last ds) 4 (5 * nat n - 1)" using p(2) by simp
  obtain images labels where b0: "first_batch valid_dl = (images, labels)"
    by (cases "first_batch valid_dl")
  have vb: "0 < batch_size valid_dl" using v(1) by simp
  have idx: "\<forall>w'. fst (iter_loader E valid_dl w') ! 0 = (images, labels)"
    using iter_loader_first[OF vb v(2,3)] b0 by simp
  have col: "(images, labels) = collate (take 256 (dataset valid_dl))"
    using b0 v(1) by (simp add: first_batch_def)
  have ine: "images \<noteq> []" and ll: "length labels = length images"
    using col v(3) by (simp_all add: collate_def)
  let ?out = "forward E (model s') images"
  have tm: "training (model s') \<Longrightarrow> length images \<noteq> 1" using m(2) by simp
  note out = network_outputs[OF assms(4) m(1) tm]
  have rows: "\<forall>row\<in>set ?out. length row = 10 \<and> length (softmax E row) = 10"
    using out(2,3) by simp
  have tbl: "?tbl = Log [(''predictions_table'',
                          TableV \<lparr>columns = [''image'', ''pred'', ''target''] @ score_columns,
                                  rows = zip images (zip (map argmax ?out)
                                           (zip labels (map (softmax E) ?out)))\<rparr>)] False"
    by (simp add: table_call_def predictions_table_def b0)
  have zl: "length (zip images (zip (map argmax ?out) (zip labels (map (softmax E) ?out))))
              = length images"
    using out(1) ll by simp
  have c13: "length ([''image'', ''pred'', ''target''] @ score_columns) = 13"
    by (simp add: score_columns_def)
  have post: "?post = [Log (last ds @ vm) True, Summary ''test_accuracy'' (8 / 10), Finish]"
    by simp
  have outeq: "?out = forward E (model s') images" by simp
  show ?thesis
    using t(1) t(3) calls v5 t1 pre4 idx col ine ll m outeq out(1) rows tbl zl c13 post last p(1)
    apply -
    apply (rule exI[of _ train_dl], rule exI[of _ valid_dl], rule exI[of _ n])
    apply (rule exI[of _ s'], rule exI[of _ ?pre], rule exI[of _ ?tbl], rule exI[of _ ?post])
    apply (rule exI[of _ images], rule exI[of _ labels], rule exI[of _ ?out])
    apply (rule exI[of _ "last ds"], rule exI[of _ vm])
    apply (intro conjI)
    apply assumption+
    done
qed

theorem trial_validation_records_and_table_witness:
  "trainable toy_MNIST \<and> toy_MNIST False \<noteq> [] \<and> sampler_ok toy_externals
   \<and> shapes_ok toy_externals
   \<and> (\<exists>train_dl valid_dl n s' pre tbl post images labels outputs d vm.
           make_loaders toy_MNIST (fst (make_config toy_externals initial_world))
             = Inr (train_dl, valid_dl, n)
           \<and> trial toy_externals toy_MNIST None initial_world = Inr s'
           \<and> wandb_calls (world s') = wandb_calls initial_world @ pre @ tbl # post
           \<and> length (filter (logs_key ''val/val_loss'') (pre @ tbl # post)) = 5
           \<and> length (filter (logs_key ''predictions_table'') (pre @ tbl # post)) = 1
           \<and> length (filter (logs_key ''val/val_loss'') pre) = 4
           \<and> (\<forall>w'. fst (iter_loader toy_externals valid_dl w') ! 0 = (images, labels))
           \<and> (images, labels) = collate (take 256 (dataset valid_dl))
           \<and> images = [4] \<and> labels = [0]
           \<and> layers (model s') = [Flatten, Linear 784 256, BatchNorm1d 256, ReLU,
                Dropout (dropout (fst (make_config toy_externals initial_world))), Linear 256 10]
           \<and> \<not> training (model s')
           \<and> outputs = forward toy_externals (model s') images
           \<and> outputs = [replicate 10 4]
           \<and> tbl = Log [(''predictions_table'',
                          TableV \<lparr>columns = [''image'', ''pred'', ''target''] @ score_columns,
                                  rows = [(4, 0, 0, replicate 10 (1 / 10))]\<rparr>)]
                     False
           \<and> length ([''image'', ''pred'', ''target''] @ score_columns) = 13
           \<and> post = [Log (d @ vm) True, Summary ''test_accuracy'' (8 / 10), Finish]
           \<and> n = 2 \<and> train_record d 4 9 \<and> val_record vm)"
proof -
  have h2: "toy_MNIST False \<noteq> []"
    by (simp add: toy_MNIST_def)
  obtain train_dl valid_dl n s' pre tbl post images labels outputs d vm where r:
      "make_loaders toy_MNIST (fst (make_config toy_externals initial_world))
         = Inr (train_dl, valid_dl, n)"
      "trial toy_externals toy_MNIST None initial_world = Inr s'"
      "wandb_calls (world s') = wandb_calls initial_world @ pre @ tbl # post"
      "length (filter (logs_key ''val/val_loss'') (pre @ tbl # post)) = 5"
      "length (filter (logs_key ''predictions_table'') (pre @ tbl # post)) = 1"
      "length (filter (logs_key ''val/val_loss'') pre) = 4"
      "\<forall>w'. fst (iter_loader toy_externals valid_dl w') ! 0 = (images, labels)"
      "(images, labels) = collate (take 256 (dataset valid_dl))"
      "layers (model s') = [Flatten, Linear 784 256, BatchNorm1d 256, ReLU,
          Dropout (dropout (fst (make_config toy_externals initial_world))), Linear 256 10]"
      "\<not> training (model s')"
      "outputs = forward toy_externals (model s') images"
      "tbl = Log [(''predictions_table'',
                   TableV \<lparr>columns = [''image'', ''pred'', ''target''] @ score_columns,
                           rows = zip images (zip (map argmax outputs)
                                    (zip labels (map (softmax toy_externals) outputs)))\<rparr>)] False"
      "length ([''image'', ''pred'', ''target''] @ score_columns) = 13"
      "post = [Log (d @ vm) True, Summary ''test_accuracy'' (8 / 10), Finish]"
      "train_record d 4 (5 * nat n - 1)" "val_record vm"
    using trial_validation_records_and_table[OF toy_trainable h2 toy_sampler_ok toy_shapes_ok,
        where w = initial_world and ?metrics0.0 = None]
    by blast
  note tv = toy_valid[OF r(1)]
  have im: "images = [4]" and lb: "labels = [0]"
    using r(8) tv(1) by (simp_all add: collate_def)
  note tl = toy_logits[OF r(9) r(10)]
  have out: "outputs = [replicate 10 4]"
    using r(11) tl(1) im by simp
  have tbl: "tbl = Log [(''predictions_table'',
                          TableV \<lparr>columns = [''image'', ''pred'', ''target''] @ score_columns,
                                  rows = [(4, 0, 0, replicate 10 (1 / 10))]\<rparr>)]
                     False"
    using tl(2,3) unfolding r(12) r(11) im lb by simp
  have rec: "train_record d 4 9" using r(15) tv(2) by simp
  have ex: "\<exists>train_dl valid_dl n s' pre tbl post images labels outputs d vm.
           make_loaders toy_MNIST (fst (make_config toy_externals initial_world))
             = Inr (train_dl, valid_dl, n)
           \<and> trial toy_externals toy_MNIST None initial_world = Inr s'
           \<and> wandb_calls (world s') = wandb_calls initial_world @ pre @ tbl # post
           \<and> length (filter (logs_key ''val/val_loss'') (pre @ tbl # post)) = 5
           \<and> length (filter (logs_key ''predictions_table'') (pre @ tbl # post)) = 1
           \<and> length (filter (logs_key ''val/val_loss'') pre) = 4
           \<and> (\<forall>w'. fst (iter_loader toy_externals valid_dl w') ! 0 = (images, labels))
           \<and> (images, labels) = collate (take 256 (dataset valid_dl))
           \<and> images = [4] \<and> labels = [0]
           \<and> layers (model s') = [Flatten, Linear 784 256, BatchNorm1d 256, ReLU,
                Dropout (dropout (fst (make_config toy_externals initial_world))), Linear 256 10]
           \<and> \<not> training (model s')
           \<and> outputs = forward toy_externals (model s') images
           \<and> outputs = [replicate 10 4]
           \<and> tbl = Log [(''predictions_table'',
                          TableV \<lparr>columns = [''image'', ''pred'', ''target''] @ score_columns,
                                  rows = [(4, 0, 0, replicate 10 (1 / 10))]\<rparr>)]
                     False
           \<and> length ([''image'', ''pred'', ''target''] @ score_columns) = 13
           \<and> post = [Log (d @ vm) True, Summary ''test_accuracy'' (8 / 10), Finish]
           \<and> n = 2 \<and> train_record d 4 9 \<and> val_record vm"
    using r(1,2,3,4,5,6,7,8) im lb r(9,10,11) out tbl r(13,14) tv(2) rec r(16)
    apply -
    apply (rule exI[of _ train_dl], rule exI[of _ valid_dl], rule exI[of _ n])
    apply (rule exI[of _ s'], rule exI[of _ pre], rule exI[of _ tbl], rule exI[of _ post])
    apply (rule exI[of _ images], rule exI[of _ labels], rule exI[of _ outputs])
    apply (rule exI[of _ d], rule exI[of _ vm])
    apply (intro conjI)
    apply assumption+
    done
  show ?thesis
    using toy_trainable h2 toy_sampler_ok toy_shapes_ok ex
    by (intro conjI)
qed

text \<open>
  Claim C9. In a trial the summary value test_accuracy is set exactly once, to 0.8,
  after the five validation records of the epochs, and the call that ends the session
  is the last one, right after it.
\<close>

theorem trial_summary_once:
  assumes "trainable MNIST" and "MNIST False \<noteq> []" and "sampler_ok E" and "shapes_ok E"
  shows "\<exists>s' pre.
           trial E MNIST metrics0 w = Inr s'
           \<and> wandb_calls (world s') =
                wandb_calls w @ pre @ [Summary ''test_accuracy'' (8 / 10), Finish]
           \<and> filter is_summary (pre @ [Summary ''test_accuracy'' (8 / 10), Finish])
                = [Summary ''test_accuracy'' (8 / 10)]
           \<and> Finish \<notin> set pre
           \<and> length (filter (logs_key ''val/val_loss'') pre) = 5"
proof -
  obtain train_dl valid_dl n s' trs where t:
      "make_loaders MNIST (fst (make_config E w)) = Inr (train_dl, valid_dl, n)"
      "0 < n"
      "trial E MNIST metrics0 w = Inr s'" "length trs = 5"
      "\<forall>e<5. epoch_trace (nat n) e (e * nat n)
                (if e = 4 then [table_call E (model s') (first_batch valid_dl)] else [])
                (trs ! e)"
      "wandb_calls (world s') =
         wandb_calls w @ [Init ''mnist-classification'' (fst (make_config E w))]
           @ concat trs @ [Summary ''test_accuracy'' (8 / 10), Finish]"
    using trial_effect[OF assms(1,2,3), of w metrics0] by blast
  have n: "0 < nat n" using t(2) by simp
  let ?pre = "[Init ''mnist-classification'' (fst (make_config E w))] @ concat trs"
  have each: "\<forall>tr\<in>set trs. length (filter (logs_key ''val/val_loss'') tr) = 1
                \<and> filter is_summary tr = [] \<and> Finish \<notin> set tr"
  proof
    fix tr assume "tr \<in> set trs"
    then obtain i where i: "i < 5" "tr = trs ! i"
      using t(4) by (auto simp: in_set_conv_nth)
    then have "epoch_trace (nat n) i (i * nat n)
                 (if i = 4 then [table_call E (model s') (first_batch valid_dl)] else []) tr"
      using t(5)[rule_format, of i] by simp
    then show "length (filter (logs_key ''val/val_loss'') tr) = 1
                \<and> filter is_summary tr = [] \<and> Finish \<notin> set tr"
      using epoch_trace_counts(1,3,4)[of "nat n" i "i * nat n" "i = 4" E "model s'"
          "first_batch valid_dl" tr] n
      by simp
  qed
  have v: "length (filter (logs_key ''val/val_loss'') (concat trs)) = 5"
    using concat_count[of trs "logs_key ''val/val_loss''" 1] each t(4) by simp
  have s: "filter is_summary (concat trs) = []"
    using concat_none[of trs is_summary] each by simp
  have f: "Finish \<notin> set (concat trs)" using each by auto
  have 1: "wandb_calls (world s') = wandb_calls w @ ?pre @ [Summary ''test_accuracy'' (8 / 10), Finish]"
    using t(6) by simp
  have 2: "filter is_summary (?pre @ [Summary ''test_accuracy'' (8 / 10), Finish])
             = [Summary ''test_accuracy'' (8 / 10)]"
    using s by (simp add: is_summary_def)
  have 3: "Finish \<notin> set ?pre" using f by simp
  have 4: "length (filter (logs_key ''val/val_loss'') ?pre) = 5"
    using v by (simp add: logs_key_def)
  show ?thesis using t(3) 1 2 3 4 by blast
qed

theorem trial_summary_once_witness:
  "trainable toy_MNIST \<and> toy_MNIST False \<noteq> [] \<and> sampler_ok toy_externals
   \<and> shapes_ok toy_externals
   \<and> (\<exists>s' pre.
           trial toy_externals toy_MNIST None initial_world = Inr s'
           \<and> wandb_calls (world s') =
                wandb_calls initial_world @ pre @ [Summary ''test_accuracy'' (8 / 10), Finish]
           \<and> filter is_summary (pre @ [Summary ''test_accuracy'' (8 / 10), Finish])
                = [Summary ''test_accuracy'' (8 / 10)]
           \<and> Finish \<notin> set pre
           \<and> length (filter (logs_key ''val/val_loss'') pre) = 5)"
proof -
  have h2: "toy_MNIST False \<noteq> []"
    by (simp add: toy_MNIST_def)
  show ?thesis
    using toy_trainable h2 toy_sampler_ok toy_shapes_ok
      trial_summary_once[OF toy_trainable h2 toy_sampler_ok toy_shapes_ok,
        where w = initial_world and ?metrics0.0 = None]
    by (intro conjI)
qed

end
